theory Spec2Isabelle
  imports Main "HOL-Library.Sublist" "HOL-Library.Char_ord" "HOL-Library.List_Lexorder"
begin

section \<open>Calendar dates and clock readings\<close>

text \<open>
  The source holds a calendar date as the text \<^verbatim>\<open>YYYY-MM-DD\<close> and moves between that
  text and \<^verbatim>\<open>datetime\<close> values with \<^verbatim>\<open>strftime\<close> and \<^verbatim>\<open>strptime\<close>.
  A date is modelled by its day number (days since 1970-01-01), which names each date
  once and orders dates as the calendar does; 2024-01-01 is day 19723.
  A clock reading (\<^verbatim>\<open>datetime.utcnow()\<close>) is a number of microseconds since the epoch.
  Local time is taken to be a fixed offset from UTC, which disappears in the day number.
\<close>

type_synonym date = int
type_synonym instant = int

definition usec_per_day :: int where
  "usec_per_day = 86400000000"

definition ms_per_day :: int where
  "ms_per_day = 86400000"

definition strftime :: "instant \<Rightarrow> date" where
  "strftime t = t div usec_per_day"

definition strptime :: "date \<Rightarrow> instant" where
  "strptime d = d * usec_per_day"

definition timedelta :: "int \<Rightarrow> int" where
  "timedelta days = days * usec_per_day"

text \<open>\<^verbatim>\<open>int(start_dt.timestamp() * 1000)\<close> and \<^verbatim>\<open>datetime.fromtimestamp(date_ms / 1000)\<close>
  followed by \<^verbatim>\<open>strftime\<close>, in the upstream fetcher.\<close>

definition epoch_ms :: "date \<Rightarrow> int" where
  "epoch_ms d = d * ms_per_day"

definition date_of_ms :: "int \<Rightarrow> date" where
  "date_of_ms ms = ms div ms_per_day"

section \<open>The upstream fetcher (\<^verbatim>\<open>IMFPortWatchCollector\<close>)\<close>

text \<open>The \<^verbatim>\<open>attributes\<close> of one feature of the upstream response. A field is \<open>None\<close>
  when the key is absent, which is where \<^verbatim>\<open>attrs.get(key, 0)\<close> takes its default.\<close>

record attributes =
  a_date :: "int option"
  a_year :: "int option"
  a_month :: "int option"
  a_day :: "int option"
  n_total :: "int option"
  n_container :: "int option"
  n_dry_bulk :: "int option"
  n_general_cargo :: "int option"
  n_roro :: "int option"
  n_tanker :: "int option"

text \<open>One entry of \<^verbatim>\<open>time_series\<close>.\<close>

record daily_record =
  date :: date
  year :: "int option"
  month :: "int option"
  day :: "int option"
  vessel_count :: int
  container :: int
  dry_bulk :: int
  general_cargo :: int
  roro :: int
  tanker :: int

datatype status = Success | Error

text \<open>The exceptions that \<^verbatim>\<open>IMFPortWatchCollector.collect\<close> catches in its
  \<^verbatim>\<open>except Exception\<close>: the chokepoint has no entry in \<^verbatim>\<open>CHOKEPOINT_MAP\<close>, the page
  gave no API URL, the HTTP request failed (transport error, timeout, error status,
  unparsable body), a feature has no \<^verbatim>\<open>attributes\<close>.\<close>

datatype fetch_error = UnknownChokepoint | NoApiUrl | RequestError | KeyError

text \<open>The dictionary that the fetcher returns. \<^verbatim>\<open>total_records\<close>, \<^verbatim>\<open>date_range\<close>,
  \<^verbatim>\<open>note\<close> (here \<open>result_note\<close>) and \<^verbatim>\<open>error\<close> are keys that only some of its return
  statements set.\<close>

record collection =
  time_series :: "daily_record list"
  total_records :: "nat option"
  date_range :: "(date option \<times> date option) option"
  timestamp :: instant
  source :: string
  chokepoint :: string
  variable :: string
  status :: status
  result_note :: "string option"
  error :: "fetch_error option"

text \<open>What the outside world answers to one fetch: the browser session finds no query URL
  (\<^verbatim>\<open>_extract_api_url\<close> returns \<^verbatim>\<open>None\<close>), the HTTP request raises, or a JSON body
  arrives, with or without a \<^verbatim>\<open>features\<close> key; a feature is \<open>None\<close> when it has no
  \<^verbatim>\<open>attributes\<close> key.\<close>

datatype upstream = ExtractFailed | RequestFailed | Response "attributes option list option"

definition CHOKEPOINT_MAP :: "(string \<times> string) list" where
  "CHOKEPOINT_MAP =
    [(''bab-el-mandeb'', ''chokepoint4''),
     (''strait-of-hormuz'', ''chokepoint6''),
     (''strait-of-malacca'', ''chokepoint5''),
     (''suez-canal'', ''chokepoint1''),
     (''panama-canal'', ''chokepoint2''),
     (''bosporus-strait'', ''chokepoint3'')]"

definition get_default :: "'a option \<Rightarrow> 'a \<Rightarrow> 'a" where
  "get_default v d = (case v of None \<Rightarrow> d | Some x \<Rightarrow> x)"

definition feature_record :: "attributes \<Rightarrow> int \<Rightarrow> daily_record" where
  "feature_record attrs date_ms =
    \<lparr> date = date_of_ms date_ms,
      year = a_year attrs,
      month = a_month attrs,
      day = a_day attrs,
      vessel_count = get_default (n_total attrs) 0,
      container = get_default (n_container attrs) 0,
      dry_bulk = get_default (n_dry_bulk attrs) 0,
      general_cargo = get_default (n_general_cargo attrs) 0,
      roro = get_default (n_roro attrs) 0,
      tanker = get_default (n_tanker attrs) 0 \<rparr>"

text \<open>The loop over \<^verbatim>\<open>data['features']\<close>: a feature whose date is missing or zero
  (\<^verbatim>\<open>if date_ms:\<close>) is passed over, and so is one dated before \<^verbatim>\<open>start_epoch\<close>.\<close>

fun process_features ::
  "int option \<Rightarrow> daily_record list \<Rightarrow> attributes option list \<Rightarrow> fetch_error + daily_record list"
where
  "process_features start_epoch ts [] = Inr ts"
| "process_features start_epoch ts (None # features) = Inl KeyError"
| "process_features start_epoch ts (Some attrs # features) =
    (case a_date attrs of
       None \<Rightarrow> process_features start_epoch ts features
     | Some date_ms \<Rightarrow>
         if date_ms = 0 then process_features start_epoch ts features
         else if (case start_epoch of None \<Rightarrow> False | Some s \<Rightarrow> date_ms < s)
           then process_features start_epoch ts features
         else process_features start_epoch (ts @ [feature_record attrs date_ms]) features)"

definition series_range :: "daily_record list \<Rightarrow> date option \<times> date option" where
  "series_range ts = (if ts = [] then (None, None) else (Some (date (hd ts)), Some (date (last ts))))"

text \<open>The body of the \<^verbatim>\<open>try\<close> block; \<open>Inl\<close> is an exception raised inside it.\<close>

definition no_features ::
  "instant \<Rightarrow> string \<Rightarrow> string \<Rightarrow> string \<Rightarrow> collection"
where
  "no_features now source_url chokepoint_id variable_name =
    \<lparr> time_series = [], total_records = Some 0,
      date_range = Some (None, None), timestamp = now,
      source = source_url, chokepoint = chokepoint_id,
      variable = variable_name, status = Success,
      result_note = Some ''No new data available'', error = None \<rparr>"

definition imf_try ::
  "instant \<Rightarrow> upstream \<Rightarrow> string \<Rightarrow> string \<Rightarrow> string \<Rightarrow> date option \<Rightarrow> fetch_error + collection"
where
  "imf_try now up source_url chokepoint_id variable_name start_date =
    (case map_of CHOKEPOINT_MAP chokepoint_id of
       None \<Rightarrow> Inl UnknownChokepoint
     | Some portid \<Rightarrow>
        (case up of
           ExtractFailed \<Rightarrow> Inl NoApiUrl
         | RequestFailed \<Rightarrow> Inl RequestError
         | Response None \<Rightarrow> Inr (no_features now source_url chokepoint_id variable_name)
         | Response (Some features) \<Rightarrow>
            if features = [] then Inr (no_features now source_url chokepoint_id variable_name)
            else
              (case process_features (map_option epoch_ms start_date) [] features of
                 Inl e \<Rightarrow> Inl e
               | Inr ts \<Rightarrow>
                  let sorted_ts = sort_key date ts in
                  Inr \<lparr> time_series = sorted_ts, total_records = Some (length sorted_ts),
                        date_range = Some (series_range sorted_ts), timestamp = now,
                        source = source_url, chokepoint = chokepoint_id,
                        variable = variable_name, status = Success,
                        result_note = None, error = None \<rparr>)))"

text \<open>\<^verbatim>\<open>IMFPortWatchCollector.collect\<close>: every exception of the body becomes an error
  result, which has no \<^verbatim>\<open>total_records\<close> and no \<^verbatim>\<open>date_range\<close>.\<close>

definition imf_collect ::
  "instant \<Rightarrow> upstream \<Rightarrow> string \<Rightarrow> string \<Rightarrow> string \<Rightarrow> date option \<Rightarrow> collection"
where
  "imf_collect now up source_url chokepoint_id variable_name start_date =
    (case imf_try now up source_url chokepoint_id variable_name start_date of
       Inr data \<Rightarrow> data
     | Inl e \<Rightarrow>
        \<lparr> time_series = [], total_records = None, date_range = None, timestamp = now,
          source = source_url, chokepoint = chokepoint_id, variable = variable_name,
          status = Error, result_note = None, error = Some e \<rparr>)"

section \<open>The store and \<^verbatim>\<open>DataCollector\<close>\<close>

text \<open>The daily package that \<^verbatim>\<open>save_data\<close> pickles into \<^verbatim>\<open><date>.pckl\<close>.\<close>

record breakdown =
  b_container :: int
  b_dry_bulk :: int
  b_general_cargo :: int
  b_roro :: int
  b_tanker :: int

record daily_data =
  dd_date :: date
  dd_vessel_count :: int
  dd_breakdown :: breakdown
  dd_collected_at :: instant
  dd_source :: string
  dd_chokepoint :: string
  dd_variable :: string
  dd_status :: status

text \<open>A \<^verbatim>\<open>.pckl\<close> file holds a daily package or, from the branch for results that are not
  a time series, the fetcher's whole result.\<close>

datatype stored = Daily daily_data | Raw collection

text \<open>\<^verbatim>\<open>_metadata.json\<close>, the watermark of one variable.\<close>

record metadata =
  md_chokepoint :: string
  md_variable :: string
  latest_date :: date
  last_updated :: instant

text \<open>The directory \<^verbatim>\<open>data/logistics/chokepoints/<chokepoint>/<variable>\<close>: its
  \<^verbatim>\<open>.pckl\<close> files by the date in their name, and its metadata file if there is one.
  A directory whose path cannot be examined (\<^verbatim>\<open>stat\<close> is refused) is \<open>Unreadable\<close>;
  one that does not exist is absent from the store.\<close>

record data_dir =
  files :: "date \<rightharpoonup> stored"
  meta_file :: "metadata option"

datatype dir_state = Unreadable | Dir data_dir

type_synonym store = "string \<times> string \<rightharpoonup> dir_state"

text \<open>The configuration tree \<^verbatim>\<open>src/logistics/chokepoints\<close>: one entry per name in it.
  \<open>Parsed\<close> holds the keys of \<^verbatim>\<open>state_variables.json\<close> in the order of the file, each
  key once.\<close>

record variable_config =
  vc_source :: string

datatype config_file = Unparsable | Parsed "(string \<times> variable_config) list"

datatype chokepoint_entry = NotADirectory | NoConfigFile | ConfigFile config_file

type_synonym registry = "(string \<times> chokepoint_entry) list"

datatype collect_error = FileNotFoundError | JSONDecodeError | ValueError | PermissionError

definition load_config :: "registry \<Rightarrow> string \<Rightarrow> collect_error + (string \<times> variable_config) list" where
  "load_config reg chokepoint_id =
    (case map_of reg chokepoint_id of
       Some (ConfigFile Unparsable) \<Rightarrow> Inl JSONDecodeError
     | Some (ConfigFile (Parsed config)) \<Rightarrow> Inr config
     | _ \<Rightarrow> Inl FileNotFoundError)"

text \<open>\<^verbatim>\<open>urlparse(source_url).netloc\<close> of the standard library: a scheme is split off at the
  first colon when a letter starts it and only scheme characters make it up; what follows
  \<^verbatim>\<open>//\<close>, up to the next \<^verbatim>\<open>/\<close>, \<^verbatim>\<open>?\<close> or \<^verbatim>\<open>#\<close>, is the network location.\<close>

definition is_alpha :: "char \<Rightarrow> bool" where
  "is_alpha c \<longleftrightarrow> (CHR ''a'' \<le> c \<and> c \<le> CHR ''z'') \<or> (CHR ''A'' \<le> c \<and> c \<le> CHR ''Z'')"

definition scheme_char :: "char \<Rightarrow> bool" where
  "scheme_char c \<longleftrightarrow> is_alpha c \<or> (CHR ''0'' \<le> c \<and> c \<le> CHR ''9'') \<or> c \<in> set ''+-.''"

definition urlparse_netloc :: "string \<Rightarrow> string" where
  "urlparse_netloc url =
    (let scheme = takeWhile (\<lambda>c. c \<noteq> CHR '':'') url;
         rest = (if length scheme < length url \<and> scheme \<noteq> [] \<and> is_alpha (hd scheme)
                    \<and> list_all scheme_char scheme
                 then drop (length scheme + 1) url else url)
     in if take 2 rest = ''//'' then takeWhile (\<lambda>c. c \<notin> set ''/?#'') (drop 2 rest) else [])"

datatype collector_kind = IMFPortWatch

definition collectors :: "(string \<times> collector_kind) list" where
  "collectors = [(''portwatch.imf.org'', IMFPortWatch)]"

definition get_collector :: "string \<Rightarrow> collect_error + collector_kind" where
  "get_collector source_url =
    (case find (\<lambda>(collector_domain, collector). sublist collector_domain (urlparse_netloc source_url))
            collectors of
       Some (collector_domain, collector) \<Rightarrow> Inr collector
     | None \<Rightarrow> Inl ValueError)"

text \<open>Lines 90 to 100 of \<^verbatim>\<open>DataCollector.collect\<close>: the source locator of the variable,
  or the exception raised on the way to it.\<close>

definition resolve_source :: "registry \<Rightarrow> string \<Rightarrow> string \<Rightarrow> collect_error + string" where
  "resolve_source reg chokepoint_id variable_name =
    (case load_config reg chokepoint_id of
       Inl e \<Rightarrow> Inl e
     | Inr config \<Rightarrow>
        (case map_of config variable_name of
           None \<Rightarrow> Inl ValueError
         | Some variable_config \<Rightarrow>
            (case get_collector (vc_source variable_config) of
               Inl e \<Rightarrow> Inl e
             | Inr collector \<Rightarrow> Inr (vc_source variable_config))))"

text \<open>\<^verbatim>\<open>_get_latest_date\<close>.\<close>

definition get_latest_date :: "store \<Rightarrow> string \<Rightarrow> string \<Rightarrow> collect_error + date option" where
  "get_latest_date st chokepoint_id variable_name =
    (case st (chokepoint_id, variable_name) of
       None \<Rightarrow> Inr None
     | Some Unreadable \<Rightarrow> Inl PermissionError
     | Some (Dir d) \<Rightarrow> Inr (map_option latest_date (meta_file d)))"

text \<open>\<^verbatim>\<open>data_dir.mkdir(parents=True, exist_ok=True)\<close>.\<close>

definition mkdir :: "store \<Rightarrow> string \<Rightarrow> string \<Rightarrow> collect_error + data_dir" where
  "mkdir st chokepoint_id variable_name =
    (case st (chokepoint_id, variable_name) of
       None \<Rightarrow> Inr \<lparr> files = Map.empty, meta_file = None \<rparr>
     | Some Unreadable \<Rightarrow> Inl PermissionError
     | Some (Dir d) \<Rightarrow> Inr d)"

definition daily_package :: "collection \<Rightarrow> string \<Rightarrow> string \<Rightarrow> daily_record \<Rightarrow> daily_data" where
  "daily_package data chokepoint_id variable_name daily_record =
    \<lparr> dd_date = date daily_record,
      dd_vessel_count = vessel_count daily_record,
      dd_breakdown =
        \<lparr> b_container = container daily_record,
          b_dry_bulk = dry_bulk daily_record,
          b_general_cargo = general_cargo daily_record,
          b_roro = roro daily_record,
          b_tanker = tanker daily_record \<rparr>,
      dd_collected_at = timestamp data,
      dd_source = source data,
      dd_chokepoint = chokepoint_id,
      dd_variable = variable_name,
      dd_status = status data \<rparr>"

text \<open>The loop of \<^verbatim>\<open>save_data\<close> over the daily records, with its two counters.\<close>

fun save_records ::
  "collection \<Rightarrow> string \<Rightarrow> string \<Rightarrow> (date \<rightharpoonup> stored) \<Rightarrow> nat \<Rightarrow> nat \<Rightarrow> daily_record list
    \<Rightarrow> (date \<rightharpoonup> stored) \<times> nat \<times> nat"
where
  "save_records data c v fl saved_count skipped_count [] = (fl, saved_count, skipped_count)"
| "save_records data c v fl saved_count skipped_count (daily_record # rest) =
    (if fl (date daily_record) \<noteq> None
     then save_records data c v fl saved_count (skipped_count + 1) rest
     else save_records data c v
            (fl(date daily_record \<mapsto> Daily (daily_package data c v daily_record)))
            (saved_count + 1) skipped_count rest)"

text \<open>\<^verbatim>\<open>_update_metadata\<close>.\<close>

definition update_metadata :: "instant \<Rightarrow> string \<Rightarrow> string \<Rightarrow> date \<Rightarrow> data_dir \<Rightarrow> data_dir" where
  "update_metadata now chokepoint_id variable_name latest d =
    d\<lparr> meta_file := Some \<lparr> md_chokepoint = chokepoint_id, md_variable = variable_name,
                           latest_date = latest, last_updated = now \<rparr> \<rparr>"

text \<open>What \<^verbatim>\<open>save_data\<close> prints: the two counters, that there was nothing to save, or the
  date under which it saved a result that is not a time series.\<close>

datatype save_report = SavedFiles nat nat | NoNewData | SavedRaw date

text \<open>\<^verbatim>\<open>save_data\<close>. In the branch of a time series that is not empty the metadata is
  updated under \<^verbatim>\<open>if time_series:\<close>, which holds there, whatever the two counters are;
  the latest date is the date of the last record. A result without records and without a
  zero \<^verbatim>\<open>total_records\<close> is written whole under the date of the clock reading.\<close>

definition save_data ::
  "instant \<Rightarrow> store \<Rightarrow> string \<Rightarrow> string \<Rightarrow> collection \<Rightarrow> collect_error + store \<times> save_report"
where
  "save_data now st chokepoint_id variable_name data =
    (case mkdir st chokepoint_id variable_name of
       Inl e \<Rightarrow> Inl e
     | Inr d \<Rightarrow>
        if time_series data \<noteq> [] then
          (case save_records data chokepoint_id variable_name (files d) 0 0 (time_series data) of
             (fl, saved_count, skipped_count) \<Rightarrow>
               Inr (st((chokepoint_id, variable_name) \<mapsto>
                      Dir (update_metadata now chokepoint_id variable_name
                             (date (last (time_series data))) (d\<lparr> files := fl \<rparr>))),
                    SavedFiles saved_count skipped_count))
        else if get_default (total_records data) 0 = 0 then
          Inr (st((chokepoint_id, variable_name) \<mapsto> Dir d), NoNewData)
        else
          Inr (st((chokepoint_id, variable_name) \<mapsto>
                 Dir (d\<lparr> files := (files d)(strftime now \<mapsto> Raw data) \<rparr>)),
               SavedRaw (strftime now)))"

text \<open>The range hint of \<^verbatim>\<open>collect\<close>: the day after the latest date of the metadata, in
  incremental mode and when there is metadata.\<close>

definition start_date_of :: "store \<Rightarrow> string \<Rightarrow> string \<Rightarrow> bool \<Rightarrow> collect_error + date option" where
  "start_date_of st chokepoint_id variable_name incremental =
    (if incremental then
       (case get_latest_date st chokepoint_id variable_name of
          Inl e \<Rightarrow> Inl e
        | Inr None \<Rightarrow> Inr None
        | Inr (Some latest) \<Rightarrow> Inr (Some (strftime (strptime latest + timedelta 1))))
     else Inr None)"

text \<open>\<^verbatim>\<open>DataCollector.collect\<close>. The two clock readings are the one the fetcher stamps its
  result with and the one \<^verbatim>\<open>save_data\<close> takes; \<open>up\<close> is what the upstream answers to this
  call. The registered fetcher accepts \<^verbatim>\<open>start_date\<close> and raises nothing, so the
  \<^verbatim>\<open>except TypeError\<close> branch is never taken.\<close>

definition collect ::
  "registry \<Rightarrow> instant \<Rightarrow> instant \<Rightarrow> upstream \<Rightarrow> store \<Rightarrow> string \<Rightarrow> string \<Rightarrow> bool
    \<Rightarrow> collect_error + collection \<times> save_report \<times> store"
where
  "collect reg fetch_now save_now up st chokepoint_id variable_name incremental =
    (case resolve_source reg chokepoint_id variable_name of
       Inl e \<Rightarrow> Inl e
     | Inr source_url \<Rightarrow>
        (case start_date_of st chokepoint_id variable_name incremental of
           Inl e \<Rightarrow> Inl e
         | Inr start_date \<Rightarrow>
            let data = imf_collect fetch_now up source_url chokepoint_id variable_name start_date
            in (case save_data save_now st chokepoint_id variable_name data of
                  Inl e \<Rightarrow> Inl e
                | Inr (st', report) \<Rightarrow> Inr (data, report, st'))))"

text \<open>A sequence of \<^verbatim>\<open>collect\<close> calls, one after the other on the same store; a call that
  raises leaves the store as it found it.\<close>

record call =
  call_chokepoint :: string
  call_variable :: string
  call_incremental :: bool
  call_upstream :: upstream
  call_fetch_now :: instant
  call_save_now :: instant

definition collect_call :: "registry \<Rightarrow> store \<Rightarrow> call \<Rightarrow> store" where
  "collect_call reg st k =
    (case collect reg (call_fetch_now k) (call_save_now k) (call_upstream k) st
            (call_chokepoint k) (call_variable k) (call_incremental k) of
       Inl e \<Rightarrow> st
     | Inr (data, report, st') \<Rightarrow> st')"

fun collect_all :: "registry \<Rightarrow> store \<Rightarrow> call list \<Rightarrow> store" where
  "collect_all reg st [] = st"
| "collect_all reg st (k # ks) = collect_all reg (collect_call reg st k) ks"

section \<open>Gap detection (\<^verbatim>\<open>BackfillManager\<close>)\<close>

text \<open>The loop \<^verbatim>\<open>while current <= end\<close> of \<^verbatim>\<open>get_missing_dates\<close>, which steps one day at a
  time and notes the date of each step.\<close>

function dates_from :: "instant \<Rightarrow> instant \<Rightarrow> date list" where
  "dates_from current end_time =
    (if current \<le> end_time
     then strftime current # dates_from (current + timedelta 1) end_time
     else [])"
  by pat_completeness auto
termination
  by (relation "measure (\<lambda>(current, end_time). nat (end_time - current + 1))")
     (auto simp: timedelta_def usec_per_day_def)

declare dates_from.simps [simp del]

text \<open>\<^verbatim>\<open>get_missing_dates\<close>. It reads the clock for the default start (\<open>now_start\<close>) and
  again for the end of the range (\<open>now_end\<close>); the range has no other end.\<close>

definition get_missing_dates ::
  "instant \<Rightarrow> instant \<Rightarrow> store \<Rightarrow> string \<Rightarrow> string \<Rightarrow> date option \<Rightarrow> collect_error + date list"
where
  "get_missing_dates now_start now_end st chokepoint_id variable_name start_date =
    (let start = (case start_date of
                    None \<Rightarrow> now_start - timedelta 30
                  | Some s \<Rightarrow> strptime s);
         all_dates = dates_from start now_end
     in case st (chokepoint_id, variable_name) of
          None \<Rightarrow> Inr all_dates
        | Some Unreadable \<Rightarrow> Inl PermissionError
        | Some (Dir d) \<Rightarrow> Inr (filter (\<lambda>date_str. files d date_str = None) all_dates))"






section \<open>Rendering (\<^verbatim>\<open>DataProcessor\<close>)\<close>

text \<open>What \<^verbatim>\<open>pickle.load\<close> gives for a stored file: any Python value, of which the
  renderer tells dictionaries from the rest.\<close>

datatype pyval = PNone | PInt int | PStr string | PDict "(string \<times> pyval) list"

datatype render_error =
  R_FileNotFoundError | R_KeyError | R_TypeError | R_AttributeError | R_OSError | R_CsvError

text \<open>The \<^verbatim>\<open>csv\<close> module, which is not part of this program, is a parameter of the model:
  \<open>dict_reader\<close> is \<^verbatim>\<open>csv.DictReader\<close> over the text of a file (the dictionaries of its rows,
  each key once, a missing field being \<open>None\<close>), and \<open>record_text\<close> is the text \<^verbatim>\<open>csv.DictWriter\<close> emits
  for a row, before the line terminator \<^verbatim>\<open>\r\n\<close> that it appends.\<close>

record csv_lib =
  dict_reader :: "string \<Rightarrow> render_error + (string \<times> string option) list list"
  record_text :: "pyval list \<Rightarrow> string"

definition LF :: char where
  "LF = CHR 0x0A"

definition CRLF :: string where
  "CRLF = [CHR 0x0D, CHR 0x0A]"

definition fieldnames :: "string list" where
  "fieldnames = [''date'', ''vessel_count'', ''container'', ''dry_bulk'', ''general_cargo'',
                 ''roro'', ''tanker'', ''collected_at'', ''chokepoint'', ''variable'']"

definition writeheader :: "csv_lib \<Rightarrow> string" where
  "writeheader lib = record_text lib (map PStr fieldnames) @ CRLF"

definition writerows :: "csv_lib \<Rightarrow> pyval list list \<Rightarrow> string" where
  "writerows lib rows = concat (map (\<lambda>row. record_text lib row @ CRLF) rows)"

text \<open>\<^verbatim>\<open>_get_processed_dates_from_csv\<close>: \<^verbatim>\<open>row['date']\<close> of every row.\<close>

fun date_column :: "(string \<times> string option) list list \<Rightarrow> render_error + string option list" where
  "date_column [] = Inr []"
| "date_column (row # rows) =
    (case map_of row ''date'' of
       None \<Rightarrow> Inl R_KeyError
     | Some d \<Rightarrow>
        (case date_column rows of
           Inl e \<Rightarrow> Inl e
         | Inr dates \<Rightarrow> Inr (d # dates)))"

definition get_processed_dates_from_csv :: "csv_lib \<Rightarrow> string \<Rightarrow> render_error + string option set" where
  "get_processed_dates_from_csv lib text =
    (case dict_reader lib text of
       Inl e \<Rightarrow> Inl e
     | Inr rows \<Rightarrow>
        (case date_column rows of
           Inl e \<Rightarrow> Inl e
         | Inr dates \<Rightarrow> Inr (set dates)))"

text \<open>\<^verbatim>\<open>d.get(key, default)\<close> and \<^verbatim>\<open>x[key]\<close>.\<close>

definition dict_get :: "(string \<times> pyval) list \<Rightarrow> string \<Rightarrow> pyval \<Rightarrow> pyval" where
  "dict_get d key dflt = (case map_of d key of None \<Rightarrow> dflt | Some x \<Rightarrow> x)"

definition subscript :: "pyval \<Rightarrow> string \<Rightarrow> render_error + pyval" where
  "subscript x key =
    (case x of
       PDict d \<Rightarrow> (case map_of d key of None \<Rightarrow> Inl R_KeyError | Some y \<Rightarrow> Inr y)
     | _ \<Rightarrow> Inl R_TypeError)"

fun sequence :: "('e + 'a) list \<Rightarrow> 'e + 'a list" where
  "sequence [] = Inr []"
| "sequence (Inl e # rs) = Inl e"
| "sequence (Inr x # rs) = (case sequence rs of Inl e \<Rightarrow> Inl e | Inr xs \<Rightarrow> Inr (x # xs))"

text \<open>The row of the first loop of \<^verbatim>\<open>process_to_csv\<close>, built with \<^verbatim>\<open>get\<close> and defaults;
  a value that is not a dictionary has no \<^verbatim>\<open>get\<close>.\<close>

definition lenient_row ::
  "string \<Rightarrow> string \<Rightarrow> string \<Rightarrow> pyval \<Rightarrow> render_error + pyval list"
where
  "lenient_row chokepoint_id variable_name date_str data =
    (case data of
       PDict d \<Rightarrow>
        (case dict_get d ''breakdown'' (PDict []) of
           PDict b \<Rightarrow>
             Inr [dict_get d ''date'' (PStr date_str),
                  dict_get d ''vessel_count'' (PInt 0),
                  dict_get b ''container'' (PInt 0),
                  dict_get b ''dry_bulk'' (PInt 0),
                  dict_get b ''general_cargo'' (PInt 0),
                  dict_get b ''roro'' (PInt 0),
                  dict_get b ''tanker'' (PInt 0),
                  dict_get d ''collected_at'' (PStr []),
                  dict_get d ''chokepoint'' (PStr chokepoint_id),
                  dict_get d ''variable'' (PStr variable_name)]
         | _ \<Rightarrow> Inl R_AttributeError)
     | _ \<Rightarrow> Inl R_AttributeError)"

text \<open>The row of the second loop, which rewrites the whole file: plain subscripts.\<close>

definition breakdown_item :: "pyval \<Rightarrow> string \<Rightarrow> render_error + pyval" where
  "breakdown_item data key =
    (case subscript data ''breakdown'' of Inl e \<Rightarrow> Inl e | Inr b \<Rightarrow> subscript b key)"

definition strict_row :: "pyval \<Rightarrow> render_error + pyval list" where
  "strict_row data =
    sequence [subscript data ''date'',
              subscript data ''vessel_count'',
              breakdown_item data ''container'',
              breakdown_item data ''dry_bulk'',
              breakdown_item data ''general_cargo'',
              breakdown_item data ''roro'',
              breakdown_item data ''tanker'',
              subscript data ''collected_at'',
              subscript data ''chokepoint'',
              subscript data ''variable'']"

text \<open>The guard of the first loop: a dictionary with a \<^verbatim>\<open>date\<close> key.\<close>

definition expected_structure :: "pyval \<Rightarrow> bool" where
  "expected_structure data =
    (case data of PDict d \<Rightarrow> map_of d ''date'' \<noteq> None | _ \<Rightarrow> False)"

text \<open>The first loop, over the sorted files, each given by the stem of its name and its
  unpickled content.\<close>

fun new_rows ::
  "string option set \<Rightarrow> string \<Rightarrow> string \<Rightarrow> (string \<times> pyval) list \<Rightarrow> render_error + pyval list list"
where
  "new_rows processed_dates chokepoint_id variable_name [] = Inr []"
| "new_rows processed_dates chokepoint_id variable_name ((date_str, data) # rest) =
    (if prefix ''_'' date_str then new_rows processed_dates chokepoint_id variable_name rest
     else if Some date_str \<in> processed_dates
       then new_rows processed_dates chokepoint_id variable_name rest
     else if \<not> expected_structure data
       then new_rows processed_dates chokepoint_id variable_name rest
     else
       (case lenient_row chokepoint_id variable_name date_str data of
          Inl e \<Rightarrow> Inl e
        | Inr row \<Rightarrow>
           (case new_rows processed_dates chokepoint_id variable_name rest of
              Inl e \<Rightarrow> Inl e
            | Inr rows \<Rightarrow> Inr (row # rows))))"

text \<open>The second loop, which has no guard.\<close>

fun all_rows :: "(string \<times> pyval) list \<Rightarrow> render_error + pyval list list" where
  "all_rows [] = Inr []"
| "all_rows ((date_str, data) # rest) =
    (if prefix ''_'' date_str then all_rows rest
     else
       (case strict_row data of
          Inl e \<Rightarrow> Inl e
        | Inr row \<Rightarrow>
           (case all_rows rest of
              Inl e \<Rightarrow> Inl e
            | Inr rows \<Rightarrow> Inr (row # rows))))"

text \<open>\<^verbatim>\<open>sorted(raw_dir.glob('*.pckl'))\<close>: the files in the order of their names.\<close>

definition sorted_pickles :: "(string \<times> pyval) list \<Rightarrow> (string \<times> pyval) list" where
  "sorted_pickles listing = sort_key (\<lambda>(stem, data). stem @ ''.pckl'') listing"

text \<open>The append branch: \<^verbatim>\<open>f.seek(-1, 2)\<close> fails on a file of no bytes; otherwise a line
  feed is written first unless the last byte is one, and then the rows.\<close>

definition append_rows :: "csv_lib \<Rightarrow> string \<Rightarrow> pyval list list \<Rightarrow> render_error + string" where
  "append_rows lib old rows =
    (if old = [] then Inl R_OSError
     else Inr (old @ (if last old \<noteq> LF then [LF] else []) @ writerows lib rows))"

text \<open>\<^verbatim>\<open>process_to_csv\<close>. \<open>raw_dir\<close> is the listing of the raw data directory if it exists,
  \<open>csv_file\<close> the bytes of the CSV file if it exists. The result is the CSV file afterwards
  and the record count that goes into the processing metadata.\<close>

definition process_to_csv ::
  "csv_lib \<Rightarrow> (string \<times> pyval) list option \<Rightarrow> string option \<Rightarrow> string \<Rightarrow> string \<Rightarrow> bool
    \<Rightarrow> render_error + string option \<times> nat"
where
  "process_to_csv lib raw_dir csv_file chokepoint_id variable_name incremental =
    (case raw_dir of
       None \<Rightarrow> Inl R_FileNotFoundError
     | Some listing \<Rightarrow>
        let pickle_files = sorted_pickles listing in
        if pickle_files = [] then Inl R_FileNotFoundError
        else
          (case (case csv_file of
                   Some old \<Rightarrow> if incremental then get_processed_dates_from_csv lib old else Inr {}
                 | None \<Rightarrow> Inr {}) of
             Inl e \<Rightarrow> Inl e
           | Inr processed_dates \<Rightarrow>
              (case new_rows processed_dates chokepoint_id variable_name pickle_files of
                 Inl e \<Rightarrow> Inl e
               | Inr all_data \<Rightarrow>
                  if incremental \<and> csv_file \<noteq> None \<and> 0 < length all_data then
                    (case csv_file of
                       Some old \<Rightarrow>
                         (case append_rows lib old all_data of
                            Inl e \<Rightarrow> Inl e
                          | Inr new \<Rightarrow> Inr (Some new, length all_data))
                     | None \<Rightarrow> Inr (csv_file, length all_data))
                  else if all_data \<noteq> [] then
                    (case (if incremental \<and> csv_file \<noteq> None then Inr all_data
                           else all_rows pickle_files) of
                       Inl e \<Rightarrow> Inl e
                     | Inr rows \<Rightarrow>
                        Inr (Some (if rows \<noteq> [] then writeheader lib @ writerows lib rows else []),
                             length rows))
                  else Inr (csv_file, length all_data))))"

text \<open>\<^verbatim>\<open>process_to_json\<close>, in its two formats; the result is the \<^verbatim>\<open>data\<close> list or the
  \<^verbatim>\<open>timeseries\<close> dictionary that goes into the output, the latter as an association list
  in insertion order. A dictionary cannot be a key.\<close>

datatype json_format = Records | Timeseries

datatype json_body = RecordsBody "pyval list" | TimeseriesBody "(pyval \<times> pyval) list"

definition json_entry :: "pyval \<Rightarrow> render_error + pyval \<times> pyval \<times> pyval \<times> pyval" where
  "json_entry data =
    (case subscript data ''date'' of
       Inl e \<Rightarrow> Inl e
     | Inr d \<Rightarrow>
        (case subscript data ''vessel_count'' of
           Inl e \<Rightarrow> Inl e
         | Inr n \<Rightarrow>
            (case subscript data ''breakdown'' of
               Inl e \<Rightarrow> Inl e
             | Inr b \<Rightarrow>
                (case subscript data ''collected_at'' of
                   Inl e \<Rightarrow> Inl e
                 | Inr t \<Rightarrow> Inr (d, n, b, t)))))"

fun json_records :: "(string \<times> pyval) list \<Rightarrow> render_error + pyval list" where
  "json_records [] = Inr []"
| "json_records ((date_str, data) # rest) =
    (if prefix ''_'' date_str then json_records rest
     else
       (case json_entry data of
          Inl e \<Rightarrow> Inl e
        | Inr (d, n, b, t) \<Rightarrow>
            (case json_records rest of
               Inl e \<Rightarrow> Inl e
             | Inr entries \<Rightarrow>
                Inr (PDict [(''date'', d), (''vessel_count'', n), (''breakdown'', b),
                            (''collected_at'', t)] # entries))))"

fun dict_set :: "(pyval \<times> pyval) list \<Rightarrow> pyval \<Rightarrow> pyval \<Rightarrow> (pyval \<times> pyval) list" where
  "dict_set [] k x = [(k, x)]"
| "dict_set ((k', x') # rest) k x = (if k' = k then (k, x) # rest else (k', x') # dict_set rest k x)"

fun json_timeseries ::
  "(pyval \<times> pyval) list \<Rightarrow> (string \<times> pyval) list \<Rightarrow> render_error + (pyval \<times> pyval) list"
where
  "json_timeseries timeseries [] = Inr timeseries"
| "json_timeseries timeseries ((date_str, data) # rest) =
    (if prefix ''_'' date_str then json_timeseries timeseries rest
     else
       (case json_entry data of
          Inl e \<Rightarrow> Inl e
        | Inr (d, n, b, t) \<Rightarrow>
            (case d of
               PDict unhashable \<Rightarrow> Inl R_TypeError
             | _ \<Rightarrow>
                json_timeseries
                  (dict_set timeseries d
                     (PDict [(''vessel_count'', n), (''breakdown'', b), (''collected_at'', t)]))
                  rest)))"

definition process_to_json ::
  "(string \<times> pyval) list option \<Rightarrow> json_format \<Rightarrow> render_error + json_body"
where
  "process_to_json raw_dir format =
    (case raw_dir of
       None \<Rightarrow> Inl R_FileNotFoundError
     | Some listing \<Rightarrow>
        let pickle_files = sorted_pickles listing in
        if pickle_files = [] then Inl R_FileNotFoundError
        else
          (case format of
             Records \<Rightarrow>
               (case json_records pickle_files of
                  Inl e \<Rightarrow> Inl e
                | Inr entries \<Rightarrow> Inr (RecordsBody entries))
           | Timeseries \<Rightarrow>
               (case json_timeseries [] pickle_files of
                  Inl e \<Rightarrow> Inl e
                | Inr timeseries \<Rightarrow> Inr (TimeseriesBody timeseries))))"

section \<open>What the claims observe\<close>

text \<open>The watermark of a variable and its stored files, empty where the directory is
  missing or cannot be read.\<close>

definition watermark_of :: "store \<Rightarrow> string \<Rightarrow> string \<Rightarrow> metadata option" where
  "watermark_of st chokepoint_id variable_name =
    (case st (chokepoint_id, variable_name) of Some (Dir d) \<Rightarrow> meta_file d | _ \<Rightarrow> None)"

definition files_of :: "store \<Rightarrow> string \<Rightarrow> string \<Rightarrow> (date \<rightharpoonup> stored)" where
  "files_of st chokepoint_id variable_name =
    (case st (chokepoint_id, variable_name) of Some (Dir d) \<Rightarrow> files d | _ \<Rightarrow> Map.empty)"

text \<open>The parts of what one \<^verbatim>\<open>collect\<close> call returns; the store after a call that raised
  is the store before it.\<close>

definition outcome_data :: "collect_error + collection \<times> save_report \<times> store \<Rightarrow> collection option" where
  "outcome_data r = (case r of Inl e \<Rightarrow> None | Inr (data, report, st') \<Rightarrow> Some data)"


definition outcome_store :: "store \<Rightarrow> collect_error + collection \<times> save_report \<times> store \<Rightarrow> store" where
  "outcome_store st r = (case r of Inl e \<Rightarrow> st | Inr (data, report, st') \<Rightarrow> st')"

text \<open>The latest date of a watermark, and the order in which ``no watermark'' comes before
  every date.\<close>

definition latest_of :: "store \<Rightarrow> string \<Rightarrow> string \<Rightarrow> date option" where
  "latest_of st chokepoint_id variable_name =
    map_option latest_date (watermark_of st chokepoint_id variable_name)"

fun latest_le :: "date option \<Rightarrow> date option \<Rightarrow> bool" where
  "latest_le None new = True"
| "latest_le (Some a) None = False"
| "latest_le (Some a) (Some b) = (a \<le> b)"

text \<open>Every stored Observation lies in the file named after its own date; the Observations
  stored for a chokepoint, a variable and a date.\<close>

definition keyed_by_date :: "store \<Rightarrow> bool" where
  "keyed_by_date st \<longleftrightarrow>
    (\<forall>c v k x. files_of st c v k = Some (Daily x) \<longrightarrow> dd_date x = k)"

definition observations :: "store \<Rightarrow> string \<Rightarrow> string \<Rightarrow> date \<Rightarrow> daily_data set" where
  "observations st c v d = {x. \<exists>k. files_of st c v k = Some (Daily x) \<and> dd_date x = d}"



section \<open>Example inputs\<close>

text \<open>One configured variable of the Suez canal, a feature of the upstream response for a
  given day and vessel count, and the store after 2024-01-01 (day 19723) was collected at
  time 100.\<close>

definition ex_registry :: registry where
  "ex_registry =
    [(''suez-canal'', ConfigFile (Parsed
       [(''vessel_arrivals'', \<lparr> vc_source = ''https://portwatch.imf.org/pages/c1'' \<rparr>)]))]"

definition ex_feature :: "date \<Rightarrow> int \<Rightarrow> attributes option" where
  "ex_feature d n =
    Some \<lparr> a_date = Some (epoch_ms d), a_year = None, a_month = None, a_day = None,
           n_total = Some n, n_container = None, n_dry_bulk = None,
           n_general_cargo = None, n_roro = None, n_tanker = None \<rparr>"

definition ex_observation :: "date \<Rightarrow> int \<Rightarrow> instant \<Rightarrow> daily_data" where
  "ex_observation d n t =
    \<lparr> dd_date = d, dd_vessel_count = n,
      dd_breakdown = \<lparr> b_container = 0, b_dry_bulk = 0, b_general_cargo = 0,
                       b_roro = 0, b_tanker = 0 \<rparr>,
      dd_collected_at = t, dd_source = ''https://portwatch.imf.org/pages/c1'',
      dd_chokepoint = ''suez-canal'', dd_variable = ''vessel_arrivals'',
      dd_status = Success \<rparr>"

definition ex_watermark :: "date \<Rightarrow> instant \<Rightarrow> metadata" where
  "ex_watermark d t =
    \<lparr> md_chokepoint = ''suez-canal'', md_variable = ''vessel_arrivals'',
      latest_date = d, last_updated = t \<rparr>"

definition ex_store :: store where
  "ex_store =
    [(''suez-canal'', ''vessel_arrivals'') \<mapsto>
       Dir \<lparr> files = [19723 \<mapsto> Daily (ex_observation 19723 41 100)],
             meta_file = Some (ex_watermark 19723 100) \<rparr>]"


definition ex_call :: "bool \<Rightarrow> upstream \<Rightarrow> instant \<Rightarrow> call" where
  "ex_call inc up t =
    \<lparr> call_chokepoint = ''suez-canal'', call_variable = ''vessel_arrivals'',
      call_incremental = inc, call_upstream = up, call_fetch_now = t, call_save_now = t + 100 \<rparr>"

definition ex_gap_store :: store where
  "ex_gap_store =
    [(''suez-canal'', ''vessel_arrivals'') \<mapsto>
       Dir \<lparr> files = [19723 \<mapsto> Daily (ex_observation 19723 41 100),
                      19725 \<mapsto> Daily (ex_observation 19725 60 300)],
             meta_file = Some (ex_watermark 19725 300) \<rparr>]"




text \<open>For the renderer: a reader and a writer of comma-separated text for fields that hold
  no comma, quote or line break, three stored days as \<^verbatim>\<open>save_data\<close> pickles them, a stored
  record without a \<^verbatim>\<open>date\<close>, and a CSV file that ends without a line terminator.\<close>

definition digit_char :: "nat \<Rightarrow> char" where
  "digit_char n = ''0123456789'' ! n"

fun show_nat :: "nat \<Rightarrow> string" where
  "show_nat n = (if n < 10 then [digit_char n] else show_nat (n div 10) @ [digit_char (n mod 10)])"

declare show_nat.simps [simp del]

definition show_int :: "int \<Rightarrow> string" where
  "show_int i = (if i < 0 then CHR ''-'' # show_nat (nat (- i)) else show_nat (nat i))"

fun split_on :: "char \<Rightarrow> string \<Rightarrow> string list" where
  "split_on sep [] = [[]]"
| "split_on sep (x # xs) =
    (case split_on sep xs of
       [] \<Rightarrow> [[x]]
     | w # ws \<Rightarrow> if x = sep then [] # w # ws else (x # w) # ws)"

fun join_with :: "char \<Rightarrow> string list \<Rightarrow> string" where
  "join_with sep [] = []"
| "join_with sep [w] = w"
| "join_with sep (w # ws) = w @ sep # join_with sep ws"

definition ex_cell :: "pyval \<Rightarrow> string" where
  "ex_cell x = (case x of PNone \<Rightarrow> [] | PInt i \<Rightarrow> show_int i | PStr s \<Rightarrow> s | PDict d \<Rightarrow> ''{}'')"

definition ex_lines :: "string \<Rightarrow> string list" where
  "ex_lines text = filter (\<lambda>l. l \<noteq> []) (map (filter (\<lambda>c. c \<noteq> CHR 0x0D)) (split_on LF text))"

fun ex_row_dict :: "string list \<Rightarrow> string list \<Rightarrow> (string \<times> string option) list" where
  "ex_row_dict [] cells = []"
| "ex_row_dict (k # ks) [] = (k, None) # ex_row_dict ks []"
| "ex_row_dict (k # ks) (x # xs) = (k, Some x) # ex_row_dict ks xs"

definition ex_csv :: csv_lib where
  "ex_csv =
    \<lparr> dict_reader = (\<lambda>text. case ex_lines text of
                                  [] \<Rightarrow> Inr []
                                | header # rows \<Rightarrow>
                                    Inr (map (\<lambda>l. ex_row_dict (split_on CHR '','' header)
                                                      (split_on CHR '','' l)) rows)),
      record_text = (\<lambda>row. join_with CHR '','' (map ex_cell row)) \<rparr>"

definition ex_pickle :: "string \<Rightarrow> int \<Rightarrow> pyval" where
  "ex_pickle d n =
    PDict [(''date'', PStr d), (''vessel_count'', PInt n),
           (''breakdown'', PDict [(''container'', PInt 0), (''dry_bulk'', PInt 0),
                                  (''general_cargo'', PInt 0), (''roro'', PInt 0),
                                  (''tanker'', PInt 0)]),
           (''collected_at'', PStr ''2024-01-08T06:00:00Z''),
           (''source'', PStr ''https://portwatch.imf.org/pages/c1''),
           (''chokepoint'', PStr ''suez-canal''), (''variable'', PStr ''vessel_arrivals''),
           (''status'', PStr ''success'')]"

definition ex_raw_dir :: "(string \<times> pyval) list" where
  "ex_raw_dir =
    [(''2024-01-07'', ex_pickle ''2024-01-07'' 52),
     (''2024-01-05'', ex_pickle ''2024-01-05'' 41),
     (''2024-01-06'', ex_pickle ''2024-01-06'' 47)]"

definition ex_old_csv :: string where
  "ex_old_csv =
    ''date,vessel_count,container,dry_bulk,general_cargo,roro,tanker,collected_at,chokepoint,variable''
    @ CRLF @ ''2024-01-05,41,0,0,0,0,0,2024-01-08T06:00:00Z,suez-canal,vessel_arrivals''"

definition ex_malformed :: pyval where
  "ex_malformed = PDict [(''status'', PStr ''error'')]"

definition ex_row :: "string \<Rightarrow> int \<Rightarrow> pyval list" where
  "ex_row d n = [PStr d, PInt n, PInt 0, PInt 0, PInt 0, PInt 0, PInt 0,
                 PStr ''2024-01-08T06:00:00Z'', PStr ''suez-canal'', PStr ''vessel_arrivals'']"

section \<open>Properties of the collector\<close>

lemma usec_per_day_pos: "0 < usec_per_day"
  by (simp add: usec_per_day_def)

lemma ms_per_day_pos: "0 < ms_per_day"
  by (simp add: ms_per_day_def)

lemma strftime_next_day: "strftime (strptime d + timedelta 1) = d + 1"
  by (simp add: strftime_def strptime_def timedelta_def usec_per_day_def)

lemma date_of_ms_ge: "epoch_ms d \<le> ms \<Longrightarrow> d \<le> date_of_ms ms"
proof -
  assume "epoch_ms d \<le> ms"
  then have "d * ms_per_day div ms_per_day \<le> ms div ms_per_day"
    unfolding epoch_ms_def by (rule zdiv_mono1) (rule ms_per_day_pos)
  then show ?thesis
    using ms_per_day_pos by (simp add: date_of_ms_def)
qed

lemma process_features_ge:
  "process_features (Some (epoch_ms d)) acc fs = Inr ts \<Longrightarrow> (\<forall>r \<in> set acc. d \<le> date r)
    \<Longrightarrow> \<forall>r \<in> set ts. d \<le> date r"
proof (induction fs arbitrary: acc)
  case Nil
  then show ?case by simp
next
  case (Cons f fs)
  show ?case
  proof (cases f)
    case None
    with Cons.prems show ?thesis by simp
  next
    case (Some attrs)
    note f = this
    show ?thesis
    proof (cases "a_date attrs")
      case None
      with f Cons.prems have "process_features (Some (epoch_ms d)) acc fs = Inr ts" by simp
      from Cons.IH[OF this Cons.prems(2)] show ?thesis .
    next
      case (Some date_ms)
      note dm = this
      show ?thesis
      proof (cases "date_ms = 0 \<or> date_ms < epoch_ms d")
        case True
        with f dm Cons.prems have "process_features (Some (epoch_ms d)) acc fs = Inr ts"
          by (auto split: if_splits)
        from Cons.IH[OF this Cons.prems(2)] show ?thesis .
      next
        case False
        then have "d \<le> date (feature_record attrs date_ms)"
          by (simp add: feature_record_def date_of_ms_ge)
        with Cons.prems(2) have acc': "\<forall>r \<in> set (acc @ [feature_record attrs date_ms]). d \<le> date r"
          by simp
        from False f dm Cons.prems(1)
        have "process_features (Some (epoch_ms d)) (acc @ [feature_record attrs date_ms]) fs = Inr ts"
          by simp
        from Cons.IH[OF this acc'] show ?thesis .
      qed
    qed
  qed
qed

lemma save_records_keeps:
  "fl k = Some x \<Longrightarrow> fst (save_records data c v fl sv sk rs) k = Some x"
proof (induction rs arbitrary: fl sv sk)
  case Nil
  then show ?case by simp
next
  case (Cons r rs)
  show ?case
  proof (cases "fl (date r) = None")
    case True
    with Cons.prems have "k \<noteq> date r" by auto
    with Cons.prems have upd: "(fl(date r \<mapsto> Daily (daily_package data c v r))) k = Some x"
      by simp
    have "fst (save_records data c v (fl(date r \<mapsto> Daily (daily_package data c v r)))
                 (sv + 1) sk rs) k = Some x"
      using upd by (rule Cons.IH)
    with True show ?thesis by simp
  next
    case False
    have "fst (save_records data c v fl sv (sk + 1) rs) k = Some x"
      using Cons.prems by (rule Cons.IH)
    with False show ?thesis by simp
  qed
qed

lemma save_records_new:
  "fst (save_records data c v fl sv sk rs) k = Some x \<Longrightarrow>
     fl k = Some x \<or> (\<exists>r \<in> set rs. k = date r \<and> x = Daily (daily_package data c v r))"
proof (induction rs arbitrary: fl sv sk)
  case Nil
  then show ?case by simp
next
  case (Cons r rs)
  show ?case
  proof (cases "fl (date r) = None")
    case True
    with Cons.prems
    have "fst (save_records data c v (fl(date r \<mapsto> Daily (daily_package data c v r)))
                 (sv + 1) sk rs) k = Some x"
      by simp
    from Cons.IH[OF this] show ?thesis
      by (auto split: if_splits)
  next
    case False
    with Cons.prems have "fst (save_records data c v fl sv (sk + 1) rs) k = Some x"
      by simp
    from Cons.IH[OF this] show ?thesis by auto
  qed
qed

lemma save_records_counts:
  "save_records data c v fl sv sk rs = (fl', sv', sk') \<Longrightarrow> sv' + sk' = sv + sk + length rs"
proof (induction rs arbitrary: fl sv sk)
  case Nil
  then show ?case by simp
next
  case (Cons r rs)
  show ?case
  proof (cases "fl (date r) = None")
    case True
    with Cons.prems
    have "save_records data c v (fl(date r \<mapsto> Daily (daily_package data c v r))) (sv + 1) sk rs
            = (fl', sv', sk')"
      by simp
    then have "sv' + sk' = (sv + 1) + sk + length rs" by (rule Cons.IH)
    then show ?thesis by simp
  next
    case False
    with Cons.prems have "save_records data c v fl sv (sk + 1) rs = (fl', sv', sk')"
      by simp
    then have "sv' + sk' = sv + (sk + 1) + length rs" by (rule Cons.IH)
    then show ?thesis by simp
  qed
qed




lemma sort_key_Nil_iff: "sort_key f xs = [] \<longleftrightarrow> xs = []"
  by (metis length_sort length_0_conv)

lemma data_dir_update_all: "d\<lparr> files := f, meta_file := m \<rparr> = \<lparr> files = f, meta_file = m \<rparr>"
  by (cases d) simp

lemma imf_collect_empty_total:
  "time_series (imf_collect now up url c v start) = [] \<Longrightarrow>
     get_default (total_records (imf_collect now up url c v start)) 0 = 0"
  by (auto simp: imf_collect_def imf_try_def no_features_def get_default_def Let_def
           sort_key_Nil_iff split: option.splits upstream.splits sum.splits if_splits)


lemma imf_collect_ge:
  "r \<in> set (time_series (imf_collect now up url c v (Some d))) \<Longrightarrow> d \<le> date r"
  by (auto simp: imf_collect_def imf_try_def no_features_def Let_def
           split: option.splits upstream.splits sum.splits if_splits
           dest: process_features_ge)

lemma imf_collect_stamp:
  "timestamp (imf_collect now up url c v start) = now"
  "source (imf_collect now up url c v start) = url"
  by (auto simp: imf_collect_def imf_try_def no_features_def Let_def
           split: option.splits upstream.splits sum.splits if_splits)

lemma collect_Inr:
  assumes "collect reg fetch_now save_now up st c v inc = Inr (data, report, st')"
  obtains url start where
    "resolve_source reg c v = Inr url"
    "start_date_of st c v inc = Inr start"
    "data = imf_collect fetch_now up url c v start"
    "save_data save_now st c v data = Inr (st', report)"
  using assms by (auto simp: collect_def Let_def split: sum.splits)

lemma save_data_Inr:
  assumes "save_data now st c v data = Inr (st', report)"
    and "time_series data = [] \<longrightarrow> get_default (total_records data) 0 = 0"
  shows "\<exists>d. mkdir st c v = Inr d
    \<and> (time_series data = [] \<longrightarrow> st' = st((c, v) \<mapsto> Dir d) \<and> report = NoNewData)
    \<and> (time_series data \<noteq> [] \<longrightarrow>
          st' = st((c, v) \<mapsto> Dir \<lparr> files = fst (save_records data c v (files d) 0 0 (time_series data)),
                 meta_file = Some \<lparr> md_chokepoint = c, md_variable = v,
                     latest_date = date (last (time_series data)), last_updated = now \<rparr> \<rparr>)
          \<and> report = SavedFiles (fst (snd (save_records data c v (files d) 0 0 (time_series data))))
                                 (snd (snd (save_records data c v (files d) 0 0 (time_series data)))))"
  using assms
  by (cases "mkdir st c v")
     (auto simp: save_data_def update_metadata_def data_dir_update_all split: prod.splits if_splits)

lemma mkdir_Inr:
  "mkdir st c v = Inr d \<Longrightarrow> st (c, v) \<noteq> Some Unreadable \<and>
     files d = files_of st c v \<and> meta_file d = watermark_of st c v"
  by (auto simp: mkdir_def files_of_def watermark_of_def split: option.splits dir_state.splits)


lemma collect_effect:
  assumes "collect reg fetch_now save_now up st c v inc = Inr (data, report, st')"
  shows "st (c, v) \<noteq> Some Unreadable"
    and "\<And>k. k \<noteq> (c, v) \<Longrightarrow> st' k = st k"
    and "time_series data = [] \<Longrightarrow>
           report = NoNewData \<and> files_of st' c v = files_of st c v
           \<and> watermark_of st' c v = watermark_of st c v"
    and "time_series data \<noteq> [] \<Longrightarrow>
           files_of st' c v = fst (save_records data c v (files_of st c v) 0 0 (time_series data))
           \<and> watermark_of st' c v =
               Some \<lparr> md_chokepoint = c, md_variable = v,
                      latest_date = date (last (time_series data)), last_updated = save_now \<rparr>"
proof -
  from assms obtain url start where
    data: "data = imf_collect fetch_now up url c v start" and
    save: "save_data save_now st c v data = Inr (st', report)"
    by (rule collect_Inr)
  have tot: "time_series data = [] \<longrightarrow> get_default (total_records data) 0 = 0"
    unfolding data by (simp add: imf_collect_empty_total)
  from save_data_Inr[OF save tot] obtain d where
    d: "mkdir st c v = Inr d" and
    e: "time_series data = [] \<Longrightarrow> st' = st((c, v) \<mapsto> Dir d) \<and> report = NoNewData" and
    n: "time_series data \<noteq> [] \<Longrightarrow>
          st' = st((c, v) \<mapsto> Dir \<lparr> files = fst (save_records data c v (files d) 0 0 (time_series data)),
                 meta_file = Some \<lparr> md_chokepoint = c, md_variable = v,
                     latest_date = date (last (time_series data)), last_updated = save_now \<rparr> \<rparr>)
          \<and> report = SavedFiles (fst (snd (save_records data c v (files d) 0 0 (time_series data))))
                                 (snd (snd (save_records data c v (files d) 0 0 (time_series data))))"
    by blast
  note md = mkdir_Inr[OF d]
  from md show "st (c, v) \<noteq> Some Unreadable" by simp
  show "st' k = st k" if "k \<noteq> (c, v)" for k
    using that e n by (cases "time_series data = []") auto
  show "report = NoNewData \<and> files_of st' c v = files_of st c v
           \<and> watermark_of st' c v = watermark_of st c v" if "time_series data = []"
    using e[OF that] md by (simp add: files_of_def watermark_of_def)
  show "files_of st' c v = fst (save_records data c v (files_of st c v) 0 0 (time_series data))
           \<and> watermark_of st' c v =
               Some \<lparr> md_chokepoint = c, md_variable = v,
                      latest_date = date (last (time_series data)), last_updated = save_now \<rparr>"
    if "time_series data \<noteq> []"
    using n[OF that] md by (simp add: files_of_def watermark_of_def)
qed

lemma mkdir_ok: "st (c, v) \<noteq> Some Unreadable \<Longrightarrow> \<exists>d. mkdir st c v = Inr d"
proof (cases "st (c, v)")
  case None
  then show ?thesis by (simp add: mkdir_def)
next
  case (Some a)
  assume "st (c, v) \<noteq> Some Unreadable"
  with Some show ?thesis by (cases a) (simp_all add: mkdir_def)
qed

lemma save_data_ok:
  "mkdir st c v = Inr d \<Longrightarrow> \<exists>st' report. save_data now st c v data = Inr (st', report)"
  by (cases "save_records data c v (files d) 0 0 (time_series data)")
     (simp add: save_data_def)

lemma collect_succeeds:
  assumes "resolve_source reg c v = Inr url"
    and "start_date_of st c v inc = Inr start"
    and "st (c, v) \<noteq> Some Unreadable"
  shows "\<exists>report st'. collect reg fetch_now save_now up st c v inc
            = Inr (imf_collect fetch_now up url c v start, report, st')"
proof -
  from assms(3) have "\<exists>d. mkdir st c v = Inr d" by (rule mkdir_ok)
  then obtain d where "mkdir st c v = Inr d" ..
  then have "\<exists>st' report.
    save_data save_now st c v (imf_collect fetch_now up url c v start) = Inr (st', report)"
    by (rule save_data_ok)
  then obtain st' report where
    "save_data save_now st c v (imf_collect fetch_now up url c v start) = Inr (st', report)"
    by blast
  with assms(1,2) show ?thesis
    by (simp add: collect_def)
qed



lemma ex_resolve:
  "resolve_source ex_registry ''suez-canal'' ''vessel_arrivals'' = Inr ''https://portwatch.imf.org/pages/c1''"
  by (simp add: resolve_source_def ex_registry_def load_config_def get_collector_def
        collectors_def urlparse_netloc_def is_alpha_def scheme_char_def)





lemma files_of_upd_same:
  "mkdir st c v = Inr d \<Longrightarrow> files_of (st((c, v) \<mapsto> Dir d)) = files_of st"
  by (rule ext, rule ext)
     (auto simp: files_of_def mkdir_def split: option.splits dir_state.splits)

lemma watermark_of_upd_same:
  "mkdir st c v = Inr d \<Longrightarrow> watermark_of (st((c, v) \<mapsto> Dir d)) = watermark_of st"
  by (rule ext, rule ext)
     (auto simp: watermark_of_def mkdir_def split: option.splits dir_state.splits)

lemma start_date_of_cong:
  "watermark_of st' c v = watermark_of st c v \<Longrightarrow> st (c, v) \<noteq> Some Unreadable
     \<Longrightarrow> st' (c, v) \<noteq> Some Unreadable
     \<Longrightarrow> start_date_of st' c v inc = start_date_of st c v inc"
  by (auto simp: start_date_of_def get_latest_date_def watermark_of_def
           split: option.splits dir_state.splits)

text \<open>A collect call whose fetch yields no records: what it returns and what it leaves.\<close>

lemma collect_empty_batch:
  assumes rs: "resolve_source reg c v = Inr url"
    and sd: "start_date_of st c v inc = Inr start"
    and rd: "st (c, v) \<noteq> Some Unreadable"
    and em: "time_series (imf_collect fetch_now up url c v start) = []"
  shows "\<exists>st'. collect reg fetch_now save_now up st c v inc
            = Inr (imf_collect fetch_now up url c v start, NoNewData, st')
          \<and> files_of st' = files_of st \<and> watermark_of st' = watermark_of st
          \<and> st' (c, v) \<noteq> Some Unreadable
          \<and> start_date_of st' c v inc = Inr start"
proof -
  from rd have "\<exists>d. mkdir st c v = Inr d" by (rule mkdir_ok)
  then obtain d where d: "mkdir st c v = Inr d" ..
  let ?data = "imf_collect fetch_now up url c v start"
  have "get_default (total_records ?data) 0 = 0"
    using em by (rule imf_collect_empty_total)
  with em d have sv: "save_data save_now st c v ?data = Inr (st((c, v) \<mapsto> Dir d), NoNewData)"
    by (simp add: save_data_def)
  have c: "collect reg fetch_now save_now up st c v inc = Inr (?data, NoNewData, st((c, v) \<mapsto> Dir d))"
    using rs sd sv by (simp add: collect_def)
  have f: "files_of (st((c, v) \<mapsto> Dir d)) = files_of st"
    using d by (rule files_of_upd_same)
  have w: "watermark_of (st((c, v) \<mapsto> Dir d)) = watermark_of st"
    using d by (rule watermark_of_upd_same)
  have u: "(st((c, v) \<mapsto> Dir d)) (c, v) \<noteq> Some Unreadable" by simp
  have "start_date_of (st((c, v) \<mapsto> Dir d)) c v inc = start_date_of st c v inc"
    using w rd u by (intro start_date_of_cong) simp_all
  with c f w u sd show ?thesis by auto
qed

text \<open>
  Two \<^verbatim>\<open>collect\<close> calls in a row whose fetches succeed with zero records both return, with
  a result of status success and no observations; neither writes a file (each reports that
  there is nothing to save) and the stored files and every watermark are after each call
  what they were before the first. The result carries the no-new-data note when the
  upstream response held no features at all.
\<close>

lemma no_new_data_idempotent:
  assumes rs: "resolve_source reg c v = Inr url"
    and sd: "start_date_of st c v inc = Inr start"
    and rd: "st (c, v) \<noteq> Some Unreadable"
    and z1: "status (imf_collect t1 up1 url c v start) = Success"
            "time_series (imf_collect t1 up1 url c v start) = []"
    and z2: "status (imf_collect t2 up2 url c v start) = Success"
            "time_series (imf_collect t2 up2 url c v start) = []"
  shows "\<exists>data1 st1 data2 st2.
      collect reg t1 s1 up1 st c v inc = Inr (data1, NoNewData, st1)
    \<and> collect reg t2 s2 up2 st1 c v inc = Inr (data2, NoNewData, st2)
    \<and> status data1 = Success \<and> time_series data1 = []
    \<and> status data2 = Success \<and> time_series data2 = []
    \<and> files_of st1 = files_of st \<and> files_of st2 = files_of st
    \<and> watermark_of st1 = watermark_of st \<and> watermark_of st2 = watermark_of st
    \<and> (up1 \<in> {Response None, Response (Some [])}
          \<longrightarrow> result_note data1 = Some ''No new data available'')
    \<and> (up2 \<in> {Response None, Response (Some [])}
          \<longrightarrow> result_note data2 = Some ''No new data available'')"
proof -
  from collect_empty_batch[OF rs sd rd z1(2), of s1] obtain st1 where
    c1: "collect reg t1 s1 up1 st c v inc = Inr (imf_collect t1 up1 url c v start, NoNewData, st1)"
    and f1: "files_of st1 = files_of st" and w1: "watermark_of st1 = watermark_of st"
    and r1: "st1 (c, v) \<noteq> Some Unreadable" and s1: "start_date_of st1 c v inc = Inr start"
    by blast
  from collect_empty_batch[OF rs s1 r1 z2(2), of s2] obtain st2 where
    c2: "collect reg t2 s2 up2 st1 c v inc = Inr (imf_collect t2 up2 url c v start, NoNewData, st2)"
    and f2: "files_of st2 = files_of st1" and w2: "watermark_of st2 = watermark_of st1"
    by blast
  have n: "result_note (imf_collect t up url c v start) = Some ''No new data available''"
    if "up \<in> {Response None, Response (Some [])}"
       "status (imf_collect t up url c v start) = Success" for t up
    using that
    by (auto simp: imf_collect_def imf_try_def no_features_def split: option.splits)
  from c1 c2 f1 f2 w1 w2 z1 z2 n[of up1 t1] n[of up2 t2] show ?thesis
    by (intro exI[of _ "imf_collect t1 up1 url c v start"] exI[of _ st1]
              exI[of _ "imf_collect t2 up2 url c v start"] exI[of _ st2]) simp
qed

text \<open>The failures of the fetcher: each is an exception of its \<^verbatim>\<open>try\<close> body.\<close>

lemma process_features_KeyError:
  "None \<in> set features \<Longrightarrow> process_features start_epoch ts features = Inl KeyError"
proof (induction features arbitrary: ts)
  case Nil
  then show ?case by simp
next
  case (Cons f features)
  show ?case
  proof (cases f)
    case None
    then show ?thesis by simp
  next
    case (Some attrs)
    with Cons.prems have "None \<in> set features" by simp
    then have "process_features start_epoch ts' features = Inl KeyError" for ts'
      by (rule Cons.IH)
    with Some show ?thesis by (simp split: option.splits)
  qed
qed

lemma imf_try_failures:
  "map_of CHOKEPOINT_MAP c = None \<Longrightarrow> imf_try now up url c v start = Inl UnknownChokepoint"
  "map_of CHOKEPOINT_MAP c \<noteq> None \<Longrightarrow> imf_try now ExtractFailed url c v start = Inl NoApiUrl"
  "map_of CHOKEPOINT_MAP c \<noteq> None \<Longrightarrow> imf_try now RequestFailed url c v start = Inl RequestError"
  "map_of CHOKEPOINT_MAP c \<noteq> None \<Longrightarrow> None \<in> set features
     \<Longrightarrow> imf_try now (Response (Some features)) url c v start = Inl KeyError"
  by (auto simp: imf_try_def process_features_KeyError)

text \<open>
  Claim C4. Whatever exception the fetcher's body raises (unknown chokepoint, no API URL,
  failed or timed-out request, unusable response), \<^verbatim>\<open>collect\<close> returns normally: the result
  has status error, no observations and the error; nothing is written, the watermark is
  the one before the call, and the range hint of the next call is the one of this call.
\<close>

theorem fetch_failure_contained:
  assumes rs: "resolve_source reg c v = Inr url"
    and sd: "start_date_of st c v inc = Inr start"
    and rd: "st (c, v) \<noteq> Some Unreadable"
    and fail: "imf_try fetch_now up url c v start = Inl e"
  shows "\<exists>data st'.
      collect reg fetch_now save_now up st c v inc = Inr (data, NoNewData, st')
    \<and> status data = Error \<and> time_series data = [] \<and> error data = Some e
    \<and> files_of st' = files_of st \<and> watermark_of st' = watermark_of st
    \<and> start_date_of st' c v inc = Inr start"
proof -
  let ?data = "imf_collect fetch_now up url c v start"
  from fail have d: "status ?data = Error" "time_series ?data = []" "error ?data = Some e"
    by (simp_all add: imf_collect_def)
  from collect_empty_batch[OF rs sd rd d(2), of save_now] d show ?thesis
    by blast
qed

lemma latest_le_refl: "latest_le a a"
  by (cases a) simp_all

lemma latest_le_trans: "latest_le a b \<Longrightarrow> latest_le b c \<Longrightarrow> latest_le a c"
  by (cases a; cases b; cases c) simp_all

lemma files_of_other: "st' (c, v) = st (c, v) \<Longrightarrow> files_of st' c v = files_of st c v"
  by (simp add: files_of_def)

lemma watermark_of_other: "st' (c, v) = st (c, v) \<Longrightarrow> watermark_of st' c v = watermark_of st c v"
  by (simp add: watermark_of_def)

lemma start_date_incremental:
  "start_date_of st c v True = Inr start \<Longrightarrow> start = map_option (\<lambda>d. d + 1) (latest_of st c v)"
  by (auto simp: start_date_of_def get_latest_date_def latest_of_def watermark_of_def
        strftime_next_day split: option.splits dir_state.splits)

lemma collect_call_latest:
  assumes "call_incremental k"
  shows "latest_le (latest_of st c v) (latest_of (collect_call reg st k) c v)"
proof (cases "collect reg (call_fetch_now k) (call_save_now k) (call_upstream k) st
                (call_chokepoint k) (call_variable k) (call_incremental k)")
  case (Inl e)
  then show ?thesis by (simp add: collect_call_def latest_le_refl)
next
  case (Inr r)
  obtain data report st' where r: "r = (data, report, st')" by (cases r)
  with Inr assms have c: "collect reg (call_fetch_now k) (call_save_now k) (call_upstream k) st
                (call_chokepoint k) (call_variable k) True = Inr (data, report, st')"
    by simp
  from Inr r have st': "collect_call reg st k = st'" by (simp add: collect_call_def)
  show ?thesis
  proof (cases "(c, v) = (call_chokepoint k, call_variable k)")
    case False
    then have "st' (c, v) = st (c, v)" by (rule collect_effect(2)[OF c])
    then have "watermark_of st' c v = watermark_of st c v" by (rule watermark_of_other)
    then show ?thesis unfolding st' latest_of_def
      by (simp add: latest_le_refl)
  next
    case True
    then have cv: "call_chokepoint k = c" "call_variable k = v" by simp_all
    note c' = c[unfolded cv]
    show ?thesis
    proof (cases "time_series data = []")
      case True
      with collect_effect(3)[OF c'] show ?thesis unfolding st' latest_of_def
        by (simp add: latest_le_refl)
    next
      case False
      with collect_effect(4)[OF c']
      have new: "latest_of st' c v = Some (date (last (time_series data)))"
        by (simp add: latest_of_def)
      show ?thesis
      proof (cases "latest_of st c v")
        case None
        then show ?thesis unfolding st' by simp
      next
        case (Some l)
        from c' obtain url start where
          sd: "start_date_of st c v True = Inr start" and
          data: "data = imf_collect (call_fetch_now k) (call_upstream k) url c v start"
          by (rule collect_Inr)
        from start_date_incremental[OF sd] Some have "start = Some (l + 1)" by simp
        from False have "last (time_series data) \<in> set (time_series data)" by simp
        then have "l + 1 \<le> date (last (time_series data))"
          unfolding data \<open>start = Some (l + 1)\<close> by (rule imf_collect_ge)
        with Some new show ?thesis unfolding st' by simp
      qed
    qed
  qed
qed

lemma collect_all_append:
  "collect_all reg st (ks1 @ ks2) = collect_all reg (collect_all reg st ks1) ks2"
  by (induction ks1 arbitrary: st) simp_all

lemma collect_all_latest:
  "\<forall>k \<in> set ks. call_incremental k \<Longrightarrow> latest_le (latest_of st c v) (latest_of (collect_all reg st ks) c v)"
proof (induction ks arbitrary: st)
  case Nil
  then show ?case by (simp add: latest_le_refl)
next
  case (Cons k ks)
  then have "latest_le (latest_of st c v) (latest_of (collect_call reg st k) c v)"
    by (simp add: collect_call_latest)
  moreover have "latest_le (latest_of (collect_call reg st k) c v)
                   (latest_of (collect_all reg (collect_call reg st k) ks) c v)"
    using Cons.prems by (intro Cons.IH) simp
  ultimately show ?case by (simp add: latest_le_trans)
qed

text \<open>
  Claim C6, as amended. Over any sequence of \<^verbatim>\<open>collect\<close> calls in incremental mode, on
  any variables and with any upstream answers, the latest date of a watermark at a later
  point of the sequence is not before its latest date at an earlier point (a variable
  without a watermark counts as before every date).
\<close>

theorem watermark_monotone:
  assumes "\<forall>k \<in> set later. call_incremental k"
  shows "latest_le (latest_of (collect_all reg st earlier) c v)
                   (latest_of (collect_all reg st (earlier @ later)) c v)"
  unfolding collect_all_append using assms by (rule collect_all_latest)

lemma collect_call_keeps:
  assumes "files_of st c v k = Some x"
  shows "files_of (collect_call reg st call) c v k = Some x"
proof (cases "collect reg (call_fetch_now call) (call_save_now call) (call_upstream call) st
                (call_chokepoint call) (call_variable call) (call_incremental call)")
  case (Inl e)
  with assms show ?thesis by (simp add: collect_call_def)
next
  case (Inr r)
  obtain data report st' where r: "r = (data, report, st')" by (cases r)
  note c = Inr[unfolded r]
  from Inr r have st': "collect_call reg st call = st'" by (simp add: collect_call_def)
  show ?thesis
  proof (cases "(c, v) = (call_chokepoint call, call_variable call)")
    case False
    then have "st' (c, v) = st (c, v)" by (rule collect_effect(2)[OF c])
    then have "files_of st' c v = files_of st c v" by (rule files_of_other)
    with assms show ?thesis unfolding st' by simp
  next
    case True
    then have cv: "call_chokepoint call = c" "call_variable call = v" by simp_all
    note c' = c[unfolded cv]
    show ?thesis
    proof (cases "time_series data = []")
      case True
      with collect_effect(3)[OF c'] assms show ?thesis unfolding st' by simp
    next
      case False
      with collect_effect(4)[OF c']
      have "files_of st' c v = fst (save_records data c v (files_of st c v) 0 0 (time_series data))"
        by simp
      moreover from assms
      have "fst (save_records data c v (files_of st c v) 0 0 (time_series data)) k = Some x"
        by (rule save_records_keeps[where fl = "files_of st c v"])
      ultimately show ?thesis unfolding st' by simp
    qed
  qed
qed

lemma collect_call_keyed:
  assumes "keyed_by_date st"
  shows "keyed_by_date (collect_call reg st call)"
proof (cases "collect reg (call_fetch_now call) (call_save_now call) (call_upstream call) st
                (call_chokepoint call) (call_variable call) (call_incremental call)")
  case (Inl e)
  with assms show ?thesis by (simp add: collect_call_def)
next
  case (Inr r)
  obtain data report st' where r: "r = (data, report, st')" by (cases r)
  note c = Inr[unfolded r]
  from Inr r have st': "collect_call reg st call = st'" by (simp add: collect_call_def)
  have "dd_date x = k" if f: "files_of st' c v k = Some (Daily x)" for c v k x
  proof (cases "(c, v) = (call_chokepoint call, call_variable call)")
    case False
    then have "st' (c, v) = st (c, v)" by (rule collect_effect(2)[OF c])
    then have "files_of st' c v = files_of st c v" by (rule files_of_other)
    with f assms show ?thesis by (simp add: keyed_by_date_def)
  next
    case True
    then have cv: "call_chokepoint call = c" "call_variable call = v" by simp_all
    note c' = c[unfolded cv]
    show ?thesis
    proof (cases "time_series data = []")
      case True
      with collect_effect(3)[OF c'] f assms show ?thesis by (simp add: keyed_by_date_def)
    next
      case False
      with collect_effect(4)[OF c'] f
      have "fst (save_records data c v (files_of st c v) 0 0 (time_series data)) k = Some (Daily x)"
        by simp
      from save_records_new[OF this]
      show ?thesis
      proof
        assume "files_of st c v k = Some (Daily x)"
        with assms show ?thesis by (simp add: keyed_by_date_def)
      next
        assume "\<exists>r \<in> set (time_series data). k = date r \<and> Daily x = Daily (daily_package data c v r)"
        then show ?thesis by (auto simp: daily_package_def)
      qed
    qed
  qed
  then show ?thesis unfolding st' by (simp add: keyed_by_date_def)
qed

lemma collect_all_keyed: "keyed_by_date st \<Longrightarrow> keyed_by_date (collect_all reg st ks)"
  by (induction ks arbitrary: st) (simp_all add: collect_call_keyed)

lemma collect_all_keeps:
  "files_of st c v k = Some x \<Longrightarrow> files_of (collect_all reg st ks) c v k = Some x"
  by (induction ks arbitrary: st) (simp_all add: collect_call_keeps)

text \<open>
  Claim C1. Start from a store in which every Observation lies under its own date. After
  any sequence of \<^verbatim>\<open>collect\<close> calls, any two stored Observations of one chokepoint,
  variable and date are the same one, and every file that was stored before the calls is
  still stored, unchanged: a date that has an entry is never written again.
\<close>

theorem no_duplicate_observations:
  assumes "keyed_by_date st"
  shows "(\<forall>x \<in> observations (collect_all reg st ks) c v d.
            \<forall>y \<in> observations (collect_all reg st ks) c v d. x = y)
       \<and> (\<forall>k x. files_of st c v k = Some x
              \<longrightarrow> files_of (collect_all reg st ks) c v k = Some x)"
proof -
  from assms have "keyed_by_date (collect_all reg st ks)" by (rule collect_all_keyed)
  then have "x = y" if "x \<in> observations (collect_all reg st ks) c v d"
                       "y \<in> observations (collect_all reg st ks) c v d" for x y
    using that by (auto simp: observations_def keyed_by_date_def)
  then show ?thesis by (auto simp: collect_all_keeps)
qed

lemma ex_keyed: "keyed_by_date ex_store"
  by (simp add: keyed_by_date_def files_of_def ex_store_def ex_observation_def)

lemma ex_files:
  "files_of ex_store ''suez-canal'' ''vessel_arrivals'' 19723 = Some (Daily (ex_observation 19723 41 100))"
  by (simp add: files_of_def ex_store_def)

lemma ex_start:
  "start_date_of ex_store ''suez-canal'' ''vessel_arrivals'' True = Inr (Some 19724)"
  by (simp add: start_date_of_def get_latest_date_def ex_store_def ex_watermark_def
        strftime_next_day)

lemma ex_readable: "ex_store (''suez-canal'', ''vessel_arrivals'') \<noteq> Some Unreadable"
  by (simp add: ex_store_def)

text \<open>Claim C1 on the example store: a full-mode call that fetches 2024-01-01 again with
  another vessel count, then an incremental call; the one Observation of 2024-01-01 is the
  one stored at the start.\<close>

theorem no_duplicate_observations_witness:
  "keyed_by_date ex_store
   \<and> observations
        (collect_all ex_registry ex_store
           [ex_call False (Response (Some [ex_feature 19723 99])) 200,
            ex_call True (Response (Some [ex_feature 19724 50])) 400])
        ''suez-canal'' ''vessel_arrivals'' 19723
      = {ex_observation 19723 41 100}"
proof -
  let ?ks = "[ex_call False (Response (Some [ex_feature 19723 99])) 200,
              ex_call True (Response (Some [ex_feature 19724 50])) 400]"
  let ?obs = "observations (collect_all ex_registry ex_store ?ks)
                ''suez-canal'' ''vessel_arrivals'' 19723"
  note t = no_duplicate_observations[OF ex_keyed, of ex_registry ?ks
             "''suez-canal''" "''vessel_arrivals''" 19723]
  from t ex_files
  have "files_of (collect_all ex_registry ex_store ?ks) ''suez-canal'' ''vessel_arrivals'' 19723
          = Some (Daily (ex_observation 19723 41 100))"
    by blast
  then have "ex_observation 19723 41 100 \<in> ?obs"
    by (auto simp: observations_def ex_observation_def)
  with t have "?obs = {ex_observation 19723 41 100}" by blast
  with ex_keyed show ?thesis by simp
qed

lemma ex_old_only:
  "collect ex_registry 200 300 (Response (Some [ex_feature 19723 41])) ex_store
      ''suez-canal'' ''vessel_arrivals'' True =
   Inr (\<lparr> time_series = [], total_records = Some 0, date_range = Some (None, None),
           timestamp = 200, source = ''https://portwatch.imf.org/pages/c1'',
           chokepoint = ''suez-canal'', variable = ''vessel_arrivals'', status = Success,
           result_note = None, error = None \<rparr>,
        NoNewData,
        ex_store((''suez-canal'', ''vessel_arrivals'') \<mapsto>
          Dir \<lparr> files = [19723 \<mapsto> Daily (ex_observation 19723 41 100)],
                meta_file = Some (ex_watermark 19723 100) \<rparr>))"
  by (simp add: collect_def ex_resolve start_date_of_def get_latest_date_def ex_watermark_def
        strftime_next_day imf_collect_def imf_try_def
        CHOKEPOINT_MAP_def ex_feature_def get_default_def epoch_ms_def
        ms_per_day_def series_range_def save_data_def mkdir_def ex_store_def)

text \<open>
  Claim C3 against the code. The watermark stands at 2024-01-01 and the upstream returns that
  day only: the fetch succeeds with zero records, every feature being older than the range
  hint. The claim has the result carry a no-new-data note; the code returns status success
  and no observations, but no note.
\<close>

theorem filtered_fetch_has_no_note:
  "outcome_data (collect ex_registry 200 300 (Response (Some [ex_feature 19723 41])) ex_store
      ''suez-canal'' ''vessel_arrivals'' True)
   = Some \<lparr> time_series = [], total_records = Some 0, date_range = Some (None, None),
           timestamp = 200, source = ''https://portwatch.imf.org/pages/c1'',
           chokepoint = ''suez-canal'', variable = ''vessel_arrivals'', status = Success,
           result_note = None, error = None \<rparr>"
  unfolding ex_old_only by (simp add: outcome_data_def)

lemma ex_no_features:
  "status (imf_collect t (Response body) ''https://portwatch.imf.org/pages/c1''
             ''suez-canal'' ''vessel_arrivals'' start) = Success
   \<and> time_series (imf_collect t (Response body) ''https://portwatch.imf.org/pages/c1''
             ''suez-canal'' ''vessel_arrivals'' start) = []"
  if "body = None \<or> body = Some []"
  using that by (auto simp: imf_collect_def imf_try_def CHOKEPOINT_MAP_def no_features_def)

text \<open>Two calls on the example store, the first answered without a \<^verbatim>\<open>features\<close> key, the
  second with an empty list of features.\<close>

lemma no_new_data_idempotent_example:
  "\<exists>data1 st1 data2 st2.
      collect ex_registry 200 300 (Response None) ex_store
        ''suez-canal'' ''vessel_arrivals'' True = Inr (data1, NoNewData, st1)
    \<and> collect ex_registry 400 500 (Response (Some [])) st1
        ''suez-canal'' ''vessel_arrivals'' True = Inr (data2, NoNewData, st2)
    \<and> status data1 = Success \<and> time_series data1 = []
    \<and> status data2 = Success \<and> time_series data2 = []
    \<and> files_of st1 = files_of ex_store \<and> files_of st2 = files_of ex_store
    \<and> watermark_of st1 = watermark_of ex_store \<and> watermark_of st2 = watermark_of ex_store
    \<and> result_note data1 = Some ''No new data available''
    \<and> result_note data2 = Some ''No new data available''"
proof -
  have z1: "status (imf_collect 200 (Response None) ''https://portwatch.imf.org/pages/c1''
             ''suez-canal'' ''vessel_arrivals'' (Some 19724)) = Success"
           "time_series (imf_collect 200 (Response None) ''https://portwatch.imf.org/pages/c1''
             ''suez-canal'' ''vessel_arrivals'' (Some 19724)) = []"
    using ex_no_features[of None] by simp_all
  have z2: "status (imf_collect 400 (Response (Some [])) ''https://portwatch.imf.org/pages/c1''
             ''suez-canal'' ''vessel_arrivals'' (Some 19724)) = Success"
           "time_series (imf_collect 400 (Response (Some [])) ''https://portwatch.imf.org/pages/c1''
             ''suez-canal'' ''vessel_arrivals'' (Some 19724)) = []"
    using ex_no_features[of "Some []"] by simp_all
  from no_new_data_idempotent[OF ex_resolve ex_start ex_readable z1 z2, of 300 500]
  show ?thesis by simp
qed

text \<open>Claim C4 at a failed request on the example store.\<close>

theorem fetch_failure_contained_witness:
  "\<exists>data st'.
      collect ex_registry 200 300 RequestFailed ex_store
        ''suez-canal'' ''vessel_arrivals'' True = Inr (data, NoNewData, st')
    \<and> status data = Error \<and> time_series data = [] \<and> error data = Some RequestError
    \<and> files_of st' = files_of ex_store \<and> watermark_of st' = watermark_of ex_store
    \<and> start_date_of st' ''suez-canal'' ''vessel_arrivals'' True = Inr (Some 19724)"
proof -
  have "imf_try 200 RequestFailed ''https://portwatch.imf.org/pages/c1''
          ''suez-canal'' ''vessel_arrivals'' (Some 19724) = Inl RequestError"
    by (simp add: imf_try_def CHOKEPOINT_MAP_def)
  from fetch_failure_contained[OF ex_resolve ex_start ex_readable this, of 300]
  show ?thesis .
qed

lemma ex_new_days:
  "collect ex_registry 200 300
      (Response (Some [ex_feature 19723 41, ex_feature 19725 60, ex_feature 19724 50])) ex_store
      ''suez-canal'' ''vessel_arrivals'' True =
   Inr (\<lparr> time_series =
             [\<lparr> date = 19724, year = None, month = None, day = None, vessel_count = 50,
                 container = 0, dry_bulk = 0, general_cargo = 0, roro = 0, tanker = 0 \<rparr>,
              \<lparr> date = 19725, year = None, month = None, day = None, vessel_count = 60,
                 container = 0, dry_bulk = 0, general_cargo = 0, roro = 0, tanker = 0 \<rparr>],
           total_records = Some 2, date_range = Some (Some 19724, Some 19725), timestamp = 200,
           source = ''https://portwatch.imf.org/pages/c1'', chokepoint = ''suez-canal'',
           variable = ''vessel_arrivals'', status = Success, result_note = None, error = None \<rparr>,
        SavedFiles 2 0,
        ex_store((''suez-canal'', ''vessel_arrivals'') \<mapsto>
          Dir \<lparr> files = [19723 \<mapsto> Daily (ex_observation 19723 41 100),
                         19724 \<mapsto> Daily (ex_observation 19724 50 200),
                         19725 \<mapsto> Daily (ex_observation 19725 60 200)],
                meta_file = Some (ex_watermark 19725 300) \<rparr>))"
  by (simp add: collect_def ex_resolve start_date_of_def get_latest_date_def
        strftime_next_day imf_collect_def imf_try_def
        CHOKEPOINT_MAP_def ex_feature_def feature_record_def get_default_def epoch_ms_def
        date_of_ms_def ms_per_day_def series_range_def save_data_def mkdir_def ex_store_def
        update_metadata_def ex_watermark_def data_dir_update_all daily_package_def
        ex_observation_def)

text \<open>The amended claim C6 at one incremental call that brings 2024-01-02 and 2024-01-03, out of
  order and with a day already stored: the watermark moves from day 19723 to day 19725.\<close>

theorem watermark_monotone_witness:
  "latest_of ex_store ''suez-canal'' ''vessel_arrivals'' = Some 19723
   \<and> latest_of (collect_all ex_registry ex_store
        [ex_call True (Response (Some [ex_feature 19723 41, ex_feature 19725 60,
                                       ex_feature 19724 50])) 200])
        ''suez-canal'' ''vessel_arrivals'' = Some 19725
   \<and> latest_le (latest_of (collect_all ex_registry ex_store []) ''suez-canal'' ''vessel_arrivals'')
        (latest_of (collect_all ex_registry ex_store
           ([] @ [ex_call True (Response (Some [ex_feature 19723 41, ex_feature 19725 60,
                                                ex_feature 19724 50])) 200]))
           ''suez-canal'' ''vessel_arrivals'')"
proof -
  let ?k = "ex_call True (Response (Some [ex_feature 19723 41, ex_feature 19725 60,
                                           ex_feature 19724 50])) 200"
  have inc: "\<forall>k \<in> set [?k]. call_incremental k" by (simp add: ex_call_def)
  have a: "latest_of ex_store ''suez-canal'' ''vessel_arrivals'' = Some 19723"
    by (simp add: latest_of_def watermark_of_def ex_store_def ex_watermark_def)
  have b: "latest_of (collect_all ex_registry ex_store [?k])
             ''suez-canal'' ''vessel_arrivals'' = Some 19725"
    by (simp add: collect_call_def ex_call_def ex_new_days latest_of_def watermark_of_def
          ex_watermark_def)
  from watermark_monotone[OF inc, of ex_registry ex_store "[]" "''suez-canal''" "''vessel_arrivals''"]
    a b show ?thesis by simp
qed

lemma ex_full_older:
  "collect ex_registry 400 500 (Response (Some [ex_feature 19723 41])) ex_gap_store
      ''suez-canal'' ''vessel_arrivals'' False =
   Inr (\<lparr> time_series = [\<lparr> date = 19723, year = None, month = None, day = None, vessel_count = 41,
                  container = 0, dry_bulk = 0, general_cargo = 0, roro = 0, tanker = 0 \<rparr>],
           total_records = Some 1, date_range = Some (Some 19723, Some 19723), timestamp = 400,
           source = ''https://portwatch.imf.org/pages/c1'', chokepoint = ''suez-canal'',
           variable = ''vessel_arrivals'', status = Success, result_note = None, error = None \<rparr>,
        SavedFiles 0 1,
        ex_gap_store((''suez-canal'', ''vessel_arrivals'') \<mapsto>
          Dir \<lparr> files = [19723 \<mapsto> Daily (ex_observation 19723 41 100),
                         19725 \<mapsto> Daily (ex_observation 19725 60 300)],
                meta_file = Some (ex_watermark 19723 500) \<rparr>))"
  by (simp add: collect_def ex_resolve start_date_of_def imf_collect_def imf_try_def
        CHOKEPOINT_MAP_def ex_feature_def feature_record_def get_default_def epoch_ms_def
        date_of_ms_def ms_per_day_def series_range_def save_data_def mkdir_def ex_gap_store_def
        update_metadata_def ex_watermark_def data_dir_update_all)

text \<open>
  Claim C6 as stated fails. The watermark stands at 2024-01-03. A full-mode call whose
  upstream has only 2024-01-01 left succeeds, writes nothing new, and sets the watermark
  back to 2024-01-01.
\<close>

theorem full_mode_lowers_watermark:
  "latest_of ex_gap_store ''suez-canal'' ''vessel_arrivals'' = Some 19725
   \<and> map_option status
        (outcome_data (collect ex_registry 400 500 (Response (Some [ex_feature 19723 41]))
           ex_gap_store ''suez-canal'' ''vessel_arrivals'' False)) = Some Success
   \<and> latest_of
        (outcome_store ex_gap_store
           (collect ex_registry 400 500 (Response (Some [ex_feature 19723 41]))
              ex_gap_store ''suez-canal'' ''vessel_arrivals'' False))
        ''suez-canal'' ''vessel_arrivals'' = Some 19723"
  unfolding ex_full_older
  by (simp add: outcome_data_def outcome_store_def latest_of_def watermark_of_def
        ex_gap_store_def ex_watermark_def)

section \<open>Properties of gap detection\<close>

lemma strftime_add_day: "strftime (t + timedelta 1) = strftime t + 1"
  by (simp add: strftime_def timedelta_def usec_per_day_def)

lemma div_add_multiple:
  fixes u :: int
  assumes "u \<noteq> 0"
  shows "(x + k * u) div u = x div u + k"
  using assms by simp

lemma usec_per_day_neq0: "usec_per_day \<noteq> 0"
  by (simp add: usec_per_day_def)

lemma div_days: "(t + k * usec_per_day) div usec_per_day = t div usec_per_day + k"
  using usec_per_day_pos by (intro div_add_multiple) simp

lemma dates_from_upto:
  "dates_from current end_time =
     (if current \<le> end_time
      then [strftime current .. strftime current + (end_time - current) div usec_per_day]
      else [])"
proof (induction current end_time rule: dates_from.induct)
  case (1 current end_time)
  show ?case
  proof (cases "current \<le> end_time")
    case False
    then show ?thesis by (simp add: dates_from.simps)
  next
    case True
    note IH = 1[OF True]
    have step: "dates_from current end_time
                 = strftime current # dates_from (current + timedelta 1) end_time"
      using True by (subst dates_from.simps) simp
    show ?thesis
    proof (cases "current + timedelta 1 \<le> end_time")
      case False
      with True have "0 \<le> end_time - current" "end_time - current < usec_per_day"
        by (simp_all add: timedelta_def)
      then have "(end_time - current) div usec_per_day = 0"
        by (simp add: div_pos_pos_trivial)
      with step IH False True show ?thesis by simp
    next
      case next_le: True
      have "end_time - (current + timedelta 1) = (end_time - current) + (- 1) * usec_per_day"
        by (simp add: timedelta_def)
      then have d: "(end_time - (current + timedelta 1)) div usec_per_day
              = (end_time - current) div usec_per_day - 1"
        by (simp only: div_days)
      from True have "0 \<le> (end_time - current) div usec_per_day"
        using usec_per_day_pos by (simp add: pos_imp_zdiv_nonneg_iff)
      then have "[strftime current .. strftime current + (end_time - current) div usec_per_day]
          = strftime current
            # [strftime current + 1 .. strftime current + (end_time - current) div usec_per_day]"
        by (simp add: upto_rec1)
      with step IH next_le d True show ?thesis
        by (simp add: strftime_add_day)
    qed
  qed
qed

lemma dates_from_midnight: "dates_from (strptime s) end_time = [s .. strftime end_time]"
proof (cases "strptime s \<le> end_time")
  case True
  have "end_time - s * usec_per_day = end_time + (- s) * usec_per_day" by simp
  then have "(end_time - s * usec_per_day) div usec_per_day = end_time div usec_per_day - s"
    by (simp only: div_days)
  with True show ?thesis
    by (simp add: dates_from_upto strftime_def strptime_def usec_per_day_neq0)
next
  case False
  then have "end_time < s * usec_per_day" by (simp add: strptime_def)
  have "end_time div usec_per_day < s"
  proof (rule ccontr)
    assume "\<not> end_time div usec_per_day < s"
    then have "s * usec_per_day \<le> end_time div usec_per_day * usec_per_day"
      using usec_per_day_pos by (simp add: mult_right_mono)
    moreover have "end_time = end_time div usec_per_day * usec_per_day + end_time mod usec_per_day"
      by simp
    moreover have "0 \<le> end_time mod usec_per_day"
      using usec_per_day_pos by simp
    ultimately show False using \<open>end_time < s * usec_per_day\<close> by linarith
  qed
  with False show ?thesis by (simp add: dates_from_upto strftime_def)
qed

lemma dates_from_default:
  assumes "now_start \<le> now_end" and "strftime now_start = strftime now_end"
  shows "dates_from (now_start - timedelta 30) now_end = [strftime now_end - 30 .. strftime now_end]"
proof -
  let ?u = usec_per_day
  have le: "now_start - timedelta 30 \<le> now_end"
    using assms(1) usec_per_day_pos by (simp add: timedelta_def)
  have "now_start - timedelta 30 = now_start + (- 30) * ?u" by (simp add: timedelta_def)
  then have s: "strftime (now_start - timedelta 30) = strftime now_end - 30"
    unfolding strftime_def using assms(2)[unfolded strftime_def] by (simp only: div_days)
  have lt: "now_end - now_start < ?u"
  proof -
    have "now_end = now_end div ?u * ?u + now_end mod ?u" by simp
    moreover have "now_start = now_end div ?u * ?u + now_start mod ?u"
      using assms(2)[unfolded strftime_def, symmetric] by simp
    moreover have "now_end mod ?u < ?u" "0 \<le> now_start mod ?u"
      using usec_per_day_pos by simp_all
    ultimately show ?thesis by linarith
  qed
  have "now_end - (now_start - timedelta 30) = (now_end - now_start) + 30 * ?u"
    by (simp add: timedelta_def)
  then have "(now_end - (now_start - timedelta 30)) div ?u = (now_end - now_start) div ?u + 30"
    by (simp only: div_days)
  also have "(now_end - now_start) div ?u = 0"
    using assms(1) lt by (simp add: div_pos_pos_trivial)
  finally have "(now_end - (now_start - timedelta 30)) div ?u = 30" by simp
  with le s show ?thesis by (simp add: dates_from_upto)
qed

text \<open>
  Claim C5. \<^verbatim>\<open>get_missing_dates\<close> returns, in ascending order, the dates of the range from the
  start (the given start date, or 30 days before the clock reading) to the date of the clock
  reading, both included, for which no file is stored; with nothing stored it returns every
  date of the range. The directory is taken to be accessible and the two clock readings of
  the call to fall, in order, on one day.
\<close>

theorem get_missing_dates_correct:
  assumes "st (c, v) \<noteq> Some Unreadable"
    and "now_start \<le> now_end" and "strftime now_start = strftime now_end"
  shows "get_missing_dates now_start now_end st c v start_date =
           Inr (filter (\<lambda>d. files_of st c v d = None)
                  [(case start_date of None \<Rightarrow> strftime now_end - 30 | Some s \<Rightarrow> s)
                   .. strftime now_end])
       \<and> sorted_wrt (<) (filter (\<lambda>d. files_of st c v d = None)
                  [(case start_date of None \<Rightarrow> strftime now_end - 30 | Some s \<Rightarrow> s)
                   .. strftime now_end])
       \<and> ((\<forall>d. files_of st c v d = None) \<longrightarrow>
            get_missing_dates now_start now_end st c v start_date =
              Inr [(case start_date of None \<Rightarrow> strftime now_end - 30 | Some s \<Rightarrow> s)
                   .. strftime now_end])"
proof -
  let ?a = "case start_date of None \<Rightarrow> strftime now_end - 30 | Some s \<Rightarrow> s"
  have all: "dates_from (case start_date of None \<Rightarrow> now_start - timedelta 30 | Some s \<Rightarrow> strptime s)
               now_end = [?a .. strftime now_end]"
    using assms(2,3) by (cases start_date) (simp_all add: dates_from_midnight dates_from_default)
  have eq: "get_missing_dates now_start now_end st c v start_date =
           Inr (filter (\<lambda>d. files_of st c v d = None) [?a .. strftime now_end])"
  proof (cases "st (c, v)")
    case None
    then show ?thesis by (simp add: get_missing_dates_def all files_of_def)
  next
    case (Some entry)
    with assms(1) show ?thesis
      by (cases entry) (simp_all add: get_missing_dates_def all files_of_def)
  qed
  have "sorted_wrt (<) [?a .. strftime now_end]"
    by (simp add: sorted_wrt_upto)
  then have "sorted_wrt (<) (filter (\<lambda>d. files_of st c v d = None) [?a .. strftime now_end])"
    by (rule sorted_wrt_filter)
  with eq show ?thesis by simp
qed

text \<open>
  Claim C5 on the clock of 2024-01-03 (day 19725): with 2024-01-01 and 2024-01-03 stored
  and the range starting on 2024-01-01 the result is 2024-01-02 alone; with no data and no
  start date it is the 31 days that end on 2024-01-03.
\<close>

theorem get_missing_dates_correct_witness:
  "get_missing_dates (19725 * usec_per_day + 3600) (19725 * usec_per_day + 3601) ex_gap_store
      ''suez-canal'' ''vessel_arrivals'' (Some 19723) = Inr [19724]
   \<and> get_missing_dates (19725 * usec_per_day + 3600) (19725 * usec_per_day + 3601) Map.empty
      ''suez-canal'' ''vessel_arrivals'' None = Inr [19695 .. 19725]"
proof -
  have t: "(19725 * usec_per_day + 3600 :: int) \<le> 19725 * usec_per_day + 3601"
          "strftime (19725 * usec_per_day + 3600) = 19725"
          "strftime (19725 * usec_per_day + 3601) = 19725"
    by (simp_all add: strftime_def usec_per_day_def)
  have r: "ex_gap_store (''suez-canal'', ''vessel_arrivals'') \<noteq> Some Unreadable"
          "Map.empty (''suez-canal'', ''vessel_arrivals'') \<noteq> Some Unreadable"
    by (simp_all add: ex_gap_store_def)
  note a = get_missing_dates_correct[where st = ex_gap_store and c = "''suez-canal''"
              and v = "''vessel_arrivals''" and now_start = "19725 * usec_per_day + 3600"
              and now_end = "19725 * usec_per_day + 3601" and start_date = "Some 19723"]
  note b = get_missing_dates_correct[where st = Map.empty and c = "''suez-canal''"
              and v = "''vessel_arrivals''" and now_start = "19725 * usec_per_day + 3600"
              and now_end = "19725 * usec_per_day + 3601" and start_date = None]
  from a[OF r(1) t(1)] b[OF r(2) t(1)] t(2,3)
  show ?thesis
    by (simp add: files_of_def ex_gap_store_def)
qed















section \<open>Properties of the renderer\<close>

lemma writerows_Nil_iff: "writerows lib rows = [] \<longleftrightarrow> rows = []"
  by (cases rows) (simp_all add: writerows_def CRLF_def)

lemma writerows_last: "rows \<noteq> [] \<Longrightarrow> last (writerows lib rows) = LF"
proof (induction rows)
  case Nil
  then show ?case by simp
next
  case (Cons r rows)
  show ?case
  proof (cases "rows = []")
    case True
    then show ?thesis by (simp add: writerows_def CRLF_def LF_def)
  next
    case False
    with Cons.IH have "last (writerows lib rows) = LF" by simp
    moreover have "writerows lib rows \<noteq> []" using False by (simp add: writerows_Nil_iff)
    ultimately show ?thesis by (simp add: writerows_def)
  qed
qed

lemma new_rows_selection:
  "new_rows processed c v fs = Inr rows \<Longrightarrow>
     map Inr rows =
       map (\<lambda>(stem, data). lenient_row c v stem data)
         (filter (\<lambda>(stem, data). \<not> prefix ''_'' stem \<and> Some stem \<notin> processed
                     \<and> expected_structure data) fs)"
proof (induction fs arbitrary: rows)
  case Nil
  then show ?case by simp
next
  case (Cons f fs)
  obtain stem data where f: "f = (stem, data)" by (cases f)
  show ?case
  proof (cases "\<not> prefix ''_'' stem \<and> Some stem \<notin> processed \<and> expected_structure data")
    case False
    with Cons.prems f have "new_rows processed c v fs = Inr rows" by (auto split: if_splits)
    from Cons.IH[OF this] False f show ?thesis by auto
  next
    case True
    with Cons.prems f obtain row rest where
      r: "lenient_row c v stem data = Inr row" "new_rows processed c v fs = Inr rest"
         "rows = row # rest"
      by (auto split: sum.splits)
    from Cons.IH[OF r(2)] True f r(1,3) show ?thesis by simp
  qed
qed

text \<open>The append branch on a file that has bytes: the old bytes stay, a line feed is put
  after them unless they end with one, the rows of the records that are new follow in the
  order of the file names, and the file ends with a line feed.\<close>

lemma incremental_append:
  assumes "listing \<noteq> []"
    and "get_processed_dates_from_csv lib old = Inr processed"
    and "new_rows processed c v (sorted_pickles listing) = Inr rows"
    and "rows \<noteq> []"
    and "old \<noteq> []"
  shows "process_to_csv lib (Some listing) (Some old) c v True =
           Inr (Some (old @ (if last old \<noteq> LF then [LF] else []) @ writerows lib rows),
                length rows)"
    and "last (old @ (if last old \<noteq> LF then [LF] else []) @ writerows lib rows) = LF"
proof -
  from assms(1) have "sorted_pickles listing \<noteq> []"
    by (simp add: sorted_pickles_def sort_key_Nil_iff)
  with assms(2-5) show "process_to_csv lib (Some listing) (Some old) c v True =
           Inr (Some (old @ (if last old \<noteq> LF then [LF] else []) @ writerows lib rows),
                length rows)"
    by (simp add: process_to_csv_def append_rows_def)
  from assms(4) have "writerows lib rows \<noteq> []" by (simp add: writerows_Nil_iff)
  then show "last (old @ (if last old \<noteq> LF then [LF] else []) @ writerows lib rows) = LF"
    using assms(4) by (simp add: writerows_last)
qed

lemma incremental_nothing_new:
  assumes "listing \<noteq> []"
    and "get_processed_dates_from_csv lib old = Inr processed"
    and "new_rows processed c v (sorted_pickles listing) = Inr []"
  shows "process_to_csv lib (Some listing) (Some old) c v True = Inr (Some old, 0)"
proof -
  from assms(1) have "sorted_pickles listing \<noteq> []"
    by (simp add: sorted_pickles_def sort_key_Nil_iff)
  with assms(2,3) show ?thesis by (simp add: process_to_csv_def)
qed

lemma append_needs_bytes:
  "process_to_csv lib raw_dir (Some []) c v True = Inr (out, n) \<Longrightarrow> n = 0"
  by (auto simp: process_to_csv_def append_rows_def Let_def
           split: option.splits sum.splits if_splits)

text \<open>
  Claim C10. When the CSV file exists with no bytes and the incremental run finds at least
  one new record, \<^verbatim>\<open>process_to_csv\<close> raises \<^verbatim>\<open>OSError\<close> at the seek of its newline check
  and appends nothing; and whenever an incremental run on an existing CSV file returns
  with rows appended, that file had bytes. The reader is taken to give no row for a file
  of no bytes.
\<close>

theorem empty_csv_aborts_append:
  assumes "dict_reader lib [] = Inr []"
    and "new_rows {} c v (sorted_pickles listing) = Inr rows"
    and "rows \<noteq> []"
  shows "process_to_csv lib (Some listing) (Some []) c v True = Inl R_OSError
       \<and> (\<forall>raw_dir old out n.
             process_to_csv lib raw_dir (Some old) c v True = Inr (out, n) \<and> 0 < n
               \<longrightarrow> old \<noteq> [])"
proof -
  have p: "get_processed_dates_from_csv lib [] = Inr {}"
    using assms(1) by (simp add: get_processed_dates_from_csv_def)
  have ne: "sorted_pickles listing \<noteq> []"
    using assms(2,3) by (cases "sorted_pickles listing") auto
  have "process_to_csv lib (Some listing) (Some []) c v True = Inl R_OSError"
    using p ne assms(2,3) by (simp add: process_to_csv_def append_rows_def)
  moreover have "old \<noteq> []"
    if "process_to_csv lib raw_dir (Some old) c v True = Inr (out, n)" "0 < n"
    for raw_dir old out n
    using that append_needs_bytes[of lib raw_dir c v out n] by auto
  ultimately show ?thesis by blast
qed

lemma ex_reader_empty: "dict_reader ex_csv [] = Inr []"
  by (simp add: ex_csv_def ex_lines_def)

lemma ex_sorted:
  "sorted_pickles ex_raw_dir =
     [(''2024-01-05'', ex_pickle ''2024-01-05'' 41),
      (''2024-01-06'', ex_pickle ''2024-01-06'' 47),
      (''2024-01-07'', ex_pickle ''2024-01-07'' 52)]"
  by (simp add: sorted_pickles_def ex_raw_dir_def)

lemma ex_sorted_malformed:
  "sorted_pickles ((''2024-01-04'', ex_malformed) # ex_raw_dir) =
     [(''2024-01-04'', ex_malformed),
      (''2024-01-05'', ex_pickle ''2024-01-05'' 41),
      (''2024-01-06'', ex_pickle ''2024-01-06'' 47),
      (''2024-01-07'', ex_pickle ''2024-01-07'' 52)]"
  by (simp add: sorted_pickles_def ex_raw_dir_def ex_malformed_def)

lemma ex_lenient_row:
  "lenient_row ''suez-canal'' ''vessel_arrivals'' stem (ex_pickle d n) = Inr (ex_row d n)"
  by (simp add: lenient_row_def ex_pickle_def dict_get_def ex_row_def)

lemma ex_strict_row: "strict_row (ex_pickle d n) = Inr (ex_row d n)"
  by (simp add: strict_row_def subscript_def breakdown_item_def ex_pickle_def ex_row_def)

lemma ex_expected: "expected_structure (ex_pickle d n)" "\<not> expected_structure ex_malformed"
  by (simp_all add: expected_structure_def ex_pickle_def ex_malformed_def)

lemma ex_new_rows_all:
  "new_rows {} ''suez-canal'' ''vessel_arrivals'' (sorted_pickles ex_raw_dir)
     = Inr [ex_row ''2024-01-05'' 41, ex_row ''2024-01-06'' 47, ex_row ''2024-01-07'' 52]"
  by (simp add: ex_sorted ex_lenient_row ex_expected)

text \<open>
  Claim C10 on three stored days and an empty CSV file.
\<close>

theorem empty_csv_aborts_append_witness:
  "dict_reader ex_csv [] = Inr []
   \<and> new_rows {} ''suez-canal'' ''vessel_arrivals'' (sorted_pickles ex_raw_dir)
       = Inr [ex_row ''2024-01-05'' 41, ex_row ''2024-01-06'' 47, ex_row ''2024-01-07'' 52]
   \<and> process_to_csv ex_csv (Some ex_raw_dir) (Some []) ''suez-canal'' ''vessel_arrivals'' True
       = Inl R_OSError"
  using empty_csv_aborts_append[OF ex_reader_empty ex_new_rows_all] ex_reader_empty ex_new_rows_all
  by simp

lemma ex_record_text:
  "record_text ex_csv (ex_row ''2024-01-06'' 47)
     = ''2024-01-06,47,0,0,0,0,0,2024-01-08T06:00:00Z,suez-canal,vessel_arrivals''"
  "record_text ex_csv (ex_row ''2024-01-07'' 52)
     = ''2024-01-07,52,0,0,0,0,0,2024-01-08T06:00:00Z,suez-canal,vessel_arrivals''"
  by (simp_all add: ex_csv_def ex_row_def ex_cell_def show_int_def show_nat.simps digit_char_def)

lemma ex_old_dates: "get_processed_dates_from_csv ex_csv ex_old_csv = Inr {Some ''2024-01-05''}"
  by (simp add: get_processed_dates_from_csv_def ex_csv_def ex_old_csv_def ex_lines_def
        CRLF_def LF_def)

text \<open>
  Claim C7 against the code: the CSV file exists with no bytes and one stored day is new.
  The claim has a line feed inserted and the row appended; the code raises \<^verbatim>\<open>OSError\<close>.
\<close>

theorem append_to_empty_csv_fails:
  "process_to_csv ex_csv
     (Some [(''2024-01-06'', ex_pickle ''2024-01-06'' 47)]) (Some [])
     ''suez-canal'' ''vessel_arrivals'' True = Inl R_OSError"
  by (simp add: process_to_csv_def sorted_pickles_def get_processed_dates_from_csv_def
        ex_reader_empty ex_lenient_row ex_expected append_rows_def)

lemma ex_append:
  "process_to_csv ex_csv (Some ex_raw_dir) (Some ex_old_csv) ''suez-canal'' ''vessel_arrivals'' True
     = Inr (Some (ex_old_csv @ [LF]
              @ ''2024-01-06,47,0,0,0,0,0,2024-01-08T06:00:00Z,suez-canal,vessel_arrivals'' @ CRLF
              @ ''2024-01-07,52,0,0,0,0,0,2024-01-08T06:00:00Z,suez-canal,vessel_arrivals'' @ CRLF),
             2)"
proof -
  have n: "new_rows {Some ''2024-01-05''} ''suez-canal'' ''vessel_arrivals'' (sorted_pickles ex_raw_dir)
     = Inr [ex_row ''2024-01-06'' 47, ex_row ''2024-01-07'' 52]"
    by (simp add: ex_sorted ex_lenient_row ex_expected)
  have l: "ex_raw_dir \<noteq> []" by (simp add: ex_raw_dir_def)
  have o: "ex_old_csv \<noteq> []" "last ex_old_csv \<noteq> LF"
    by (simp_all add: ex_old_csv_def CRLF_def LF_def)
  from incremental_append(1)[OF l ex_old_dates n _ o(1)] o(2) show ?thesis
    by (simp add: writerows_def ex_record_text)
qed

text \<open>
  Claim C8 against the code: beside three well-formed records a stored record has no
  \<^verbatim>\<open>date\<close>. The CSV render aborts with \<^verbatim>\<open>KeyError\<close> in full mode and in incremental mode
  without a CSV file, and so does the JSON render in both formats; only the incremental
  render onto an existing CSV file skips the record and appends the rows of the others.
\<close>

theorem malformed_record_aborts_render:
  "process_to_csv ex_csv (Some ((''2024-01-04'', ex_malformed) # ex_raw_dir)) None
      ''suez-canal'' ''vessel_arrivals'' False = Inl R_KeyError
   \<and> process_to_csv ex_csv (Some ((''2024-01-04'', ex_malformed) # ex_raw_dir)) None
      ''suez-canal'' ''vessel_arrivals'' True = Inl R_KeyError
   \<and> process_to_json (Some ((''2024-01-04'', ex_malformed) # ex_raw_dir)) Records = Inl R_KeyError
   \<and> process_to_json (Some ((''2024-01-04'', ex_malformed) # ex_raw_dir)) Timeseries = Inl R_KeyError
   \<and> process_to_csv ex_csv (Some ((''2024-01-04'', ex_malformed) # ex_raw_dir)) (Some ex_old_csv)
      ''suez-canal'' ''vessel_arrivals'' True
      = Inr (Some (ex_old_csv @ [LF]
              @ ''2024-01-06,47,0,0,0,0,0,2024-01-08T06:00:00Z,suez-canal,vessel_arrivals'' @ CRLF
              @ ''2024-01-07,52,0,0,0,0,0,2024-01-08T06:00:00Z,suez-canal,vessel_arrivals'' @ CRLF),
             2)"
proof -
  have m: "strict_row ex_malformed = Inl R_KeyError"
          "json_entry ex_malformed = Inl R_KeyError"
    by (simp_all add: strict_row_def json_entry_def subscript_def ex_malformed_def)
  have s: "sorted_pickles ((''2024-01-04'', ex_malformed) # ex_raw_dir) =
            (''2024-01-04'', ex_malformed) # sorted_pickles ex_raw_dir"
    by (simp add: ex_sorted_malformed ex_sorted)
  have n0: "new_rows {} ''suez-canal'' ''vessel_arrivals'' (sorted_pickles ((''2024-01-04'', ex_malformed) # ex_raw_dir))
     = Inr [ex_row ''2024-01-05'' 41, ex_row ''2024-01-06'' 47, ex_row ''2024-01-07'' 52]"
    unfolding s by (simp add: ex_new_rows_all ex_expected)
  have n1: "new_rows {Some ''2024-01-05''} ''suez-canal'' ''vessel_arrivals''
              (sorted_pickles ((''2024-01-04'', ex_malformed) # ex_raw_dir))
     = Inr [ex_row ''2024-01-06'' 47, ex_row ''2024-01-07'' 52]"
    unfolding s by (simp add: ex_sorted ex_lenient_row ex_expected)
  have a: "all_rows (sorted_pickles ((''2024-01-04'', ex_malformed) # ex_raw_dir)) = Inl R_KeyError"
    unfolding s using m by simp
  have j: "json_records (sorted_pickles ((''2024-01-04'', ex_malformed) # ex_raw_dir)) = Inl R_KeyError"
          "json_timeseries [] (sorted_pickles ((''2024-01-04'', ex_malformed) # ex_raw_dir)) = Inl R_KeyError"
    unfolding s using m by simp_all
  have ne: "sorted_pickles ((''2024-01-04'', ex_malformed) # ex_raw_dir) \<noteq> []" unfolding s by simp
  have full: "process_to_csv ex_csv (Some ((''2024-01-04'', ex_malformed) # ex_raw_dir)) None
      ''suez-canal'' ''vessel_arrivals'' inc = Inl R_KeyError" for inc
    using ne n0 a by (simp add: process_to_csv_def)
  have json: "process_to_json (Some ((''2024-01-04'', ex_malformed) # ex_raw_dir)) fmt = Inl R_KeyError" for fmt
    using ne j by (cases fmt) (simp_all add: process_to_json_def)
  have o: "ex_old_csv \<noteq> []" "last ex_old_csv \<noteq> LF"
    by (simp_all add: ex_old_csv_def CRLF_def LF_def)
  have "process_to_csv ex_csv (Some ((''2024-01-04'', ex_malformed) # ex_raw_dir)) (Some ex_old_csv)
      ''suez-canal'' ''vessel_arrivals'' True
      = Inr (Some (ex_old_csv @ [LF]
              @ ''2024-01-06,47,0,0,0,0,0,2024-01-08T06:00:00Z,suez-canal,vessel_arrivals'' @ CRLF
              @ ''2024-01-07,52,0,0,0,0,0,2024-01-08T06:00:00Z,suez-canal,vessel_arrivals'' @ CRLF),
             2)"
    using incremental_append(1)[OF _ ex_old_dates n1 _ o(1)] o(2)
    by (simp add: writerows_def ex_record_text)
  with full json show ?thesis by simp
qed

end
